theory Spec2Isabelle
  imports Main "HOL-Library.Char_ord" "HOL-Library.Sublist"
begin

section \<open>Skill scaffolding (init\_skill.py) and the validation pipeline of the specification\<close>

text \<open>
  A Python \<open>str\<close> is modelled as a \<open>string\<close> (a list of 8-bit characters). Every
  character that the scaffolder's name check lets through is ASCII, and on ASCII text the
  list of characters and Python's sequence of code points coincide.
\<close>

subsection \<open>The skill-name check\<close>

text \<open>
  The character class \<^verbatim>\<open>[a-zA-Z0-9_-]\<close> of the pattern in \<open>validate_skill_name\<close>:
  three code-point ranges and the two literal characters.
\<close>

definition name_char :: "char \<Rightarrow> bool" where
  "name_char c =
     ((CHR ''a'' \<le> c \<and> c \<le> CHR ''z'') \<or> (CHR ''A'' \<le> c \<and> c \<le> CHR ''Z'') \<or>
      (CHR ''0'' \<le> c \<and> c \<le> CHR ''9'') \<or> c = CHR ''_'' \<or> c = CHR ''-'')"

text \<open>
  Python's \<^verbatim>\<open>$\<close> (no MULTILINE flag) matches at the end of the string and also just
  before a newline that is the last character of the string.
\<close>

definition re_dollar :: "string \<Rightarrow> bool" where
  "re_dollar rest = (rest = [] \<or> rest = [CHR 0x0A])"

text \<open>
  \<^verbatim>\<open>re.match(r'^[a-zA-Z0-9_-]+$', name)\<close>, as the backtracking matcher runs it:
  \<^verbatim>\<open>^\<close> holds at position 0, the class must take the first character, and after every
  character the class has taken either \<^verbatim>\<open>$\<close> matches at that position or the class
  takes one more character (\<open>class_plus_dollar\<close> is the state after at least one
  character). \<open>validate_skill_name\<close> is \<^verbatim>\<open>bool\<close> of the match object.
\<close>

fun class_plus_dollar :: "string \<Rightarrow> bool" where
  "class_plus_dollar [] = re_dollar []"
| "class_plus_dollar (c # cs) = (re_dollar (c # cs) \<or> (name_char c \<and> class_plus_dollar cs))"

definition validate_skill_name :: "string \<Rightarrow> bool" where
  "validate_skill_name name =
     (case name of [] \<Rightarrow> False | c # cs \<Rightarrow> name_char c \<and> class_plus_dollar cs)"

text \<open>
  What the documentation of the check asks for (docstring: the name ``contains only allowed
  characters''; help text: ``alphanumeric, hyphens, underscores only''): a non-empty string
  of class characters.
\<close>

definition only_allowed_chars :: "string \<Rightarrow> bool" where
  "only_allowed_chars name = (name \<noteq> [] \<and> list_all name_char name)"

subsection \<open>String operations of the scaffolder\<close>

text \<open>
  \<^verbatim>\<open>str.replace(old, new)\<close> where \<open>old\<close> and \<open>new\<close> are single characters, as in
  \<^verbatim>\<open>skill_name.replace("-", " ").replace("_", " ")\<close>.
\<close>

definition replace_char :: "char \<Rightarrow> char \<Rightarrow> string \<Rightarrow> string" where
  "replace_char old new s = map (\<lambda>c. if c = old then new else c) s"

definition is_lower :: "char \<Rightarrow> bool" where
  "is_lower c = (CHR ''a'' \<le> c \<and> c \<le> CHR ''z'')"

definition is_upper :: "char \<Rightarrow> bool" where
  "is_upper c = (CHR ''A'' \<le> c \<and> c \<le> CHR ''Z'')"

definition to_upper :: "char \<Rightarrow> char" where
  "to_upper c = (if is_lower c then char_of (of_char c - (32::nat)) else c)"

definition to_lower :: "char \<Rightarrow> char" where
  "to_lower c = (if is_upper c then char_of (of_char c + (32::nat)) else c)"

text \<open>
  \<^verbatim>\<open>str.title()\<close>: a character is lower-cased when the character before it is cased
  (a letter) and title-cased (here: upper-cased) otherwise; the flag is whether the previous
  character is cased.
\<close>

fun title_from :: "bool \<Rightarrow> string \<Rightarrow> string" where
  "title_from previous_is_cased [] = []"
| "title_from previous_is_cased (c # cs) =
     (if previous_is_cased then to_lower c else to_upper c) #
       title_from (is_lower c \<or> is_upper c) cs"

definition title :: "string \<Rightarrow> string" where
  "title s = title_from False s"

datatype os_error = FileExistsError | FileNotFoundError | NotADirectoryError | IsADirectoryError

datatype py_exception = OSError os_error | KeyError string | ValueError

text \<open>
  \<^verbatim>\<open>template.format(**kwargs)\<close> for templates whose replacement fields are plain keyword
  names (all three templates of the scaffolder): \<^verbatim>\<open>{name}\<close> is replaced by the keyword's
  value, which is not scanned again; \<^verbatim>\<open>{{\<close> and \<^verbatim>\<open>}}\<close> stand for one brace; a name that
  is no keyword raises KeyError, a lone \<^verbatim>\<open>}\<close> or an unclosed field raises ValueError.
  \<open>format_field\<close> collects the field name (reversed in \<open>acc\<close>) up to the closing brace.
\<close>

fun str_format :: "string \<Rightarrow> (string \<times> string) list \<Rightarrow> py_exception + string"
  and format_field :: "string \<Rightarrow> string \<Rightarrow> (string \<times> string) list \<Rightarrow> py_exception + string"
where
  "str_format [] kwargs = Inr []"
| "str_format (c # cs) kwargs =
     (if c = CHR ''{'' then
        (case cs of
           d # ds \<Rightarrow>
             if d = CHR ''{'' then map_sum id (Cons CHR ''{'') (str_format ds kwargs)
             else format_field [] cs kwargs
         | [] \<Rightarrow> Inl ValueError)
      else if c = CHR ''}'' then
        (case cs of
           d # ds \<Rightarrow>
             if d = CHR ''}'' then map_sum id (Cons CHR ''}'') (str_format ds kwargs)
             else Inl ValueError
         | [] \<Rightarrow> Inl ValueError)
      else map_sum id (Cons c) (str_format cs kwargs))"
| "format_field acc [] kwargs = Inl ValueError"
| "format_field acc (c # cs) kwargs =
     (if c = CHR ''}'' then
        (case map_of kwargs (rev acc) of
           None \<Rightarrow> Inl (KeyError (rev acc))
         | Some v \<Rightarrow> map_sum id (append v) (str_format cs kwargs))
      else format_field (c # acc) cs kwargs)"

subsection \<open>The templates\<close>

definition SKILL_MD_TEMPLATE :: string where
  "SKILL_MD_TEMPLATE =
      ''---\<newline>'' @
      ''name: {skill_name}\<newline>'' @
      ''description: [Describe what this skill does and when to use it - minimum 50 characters]\<newline>'' @
      ''---\<newline>'' @
      ''\<newline>'' @
      ''# {skill_title}\<newline>'' @
      ''\<newline>'' @
      ''## Overview\<newline>'' @
      ''\<newline>'' @
      ''[Describe the skill's purpose and capabilities]\<newline>'' @
      ''\<newline>'' @
      ''## Usage\<newline>'' @
      ''\<newline>'' @
      ''[Explain how to use this skill with examples]\<newline>'' @
      ''\<newline>'' @
      ''## Resources\<newline>'' @
      ''\<newline>'' @
      ''- `scripts/` - Executable scripts for deterministic tasks\<newline>'' @
      ''- `references/` - Documentation loaded as needed\<newline>'' @
      ''- `assets/` - Templates and files used in output\<newline>''"

definition EXAMPLE_SCRIPT :: string where
  "EXAMPLE_SCRIPT =
      ''#!/usr/bin/env python3\<newline>'' @
      ''\"\"\"Example script for {skill_name}.\"\"\"\<newline>'' @
      ''\<newline>'' @
      ''def main():\<newline>'' @
      ''    \"\"\"Main entry point.\"\"\"\<newline>'' @
      ''    print(\"Hello from {skill_name}!\")\<newline>'' @
      ''\<newline>'' @
      ''if __name__ == \"__main__\":\<newline>'' @
      ''    main()\<newline>''"

definition EXAMPLE_REFERENCE :: string where
  "EXAMPLE_REFERENCE =
      ''# Reference Document\<newline>'' @
      ''\<newline>'' @
      ''This is an example reference document for {skill_name}.\<newline>'' @
      ''\<newline>'' @
      ''## Contents\<newline>'' @
      ''\<newline>'' @
      ''Add domain knowledge, guidelines, or documentation here that Codex\<newline>'' @
      ''can load as needed during skill execution.\<newline>''"

subsection \<open>The filesystem\<close>

text \<open>
  A \<open>Path\<close> is the list of the components that lead from the filesystem root to the
  place it names (a relative \<open>Path\<close> is read with the components of the working directory
  in front), and the filesystem maps such a list to the entry stored there. The root
  \<open>[]\<close> is always a directory. Symbolic links, permissions, timestamps, the limits on
  the length of a name or a path, and the console (the \<^verbatim>\<open>print\<close> calls of the scaffolder)
  are not part of the state. A real filesystem can therefore refuse a call that succeeds
  here (a name that is too long, a directory that is not writable), and the results about
  what the scaffolder leaves are stated for the runs that return.
\<close>

datatype node = Dir | File string

type_synonym path = "string list"

type_synonym filesystem = "path \<Rightarrow> node option"

text \<open>
  Path resolution as the kernel does it: from the directory \<open>n\<close> stored at \<open>cur\<close>, one
  component at a time. A component under a regular file is ENOTDIR, a component that is
  not there is ENOENT.
\<close>

fun walk :: "filesystem \<Rightarrow> path \<Rightarrow> node \<Rightarrow> string list \<Rightarrow> os_error + node" where
  "walk fs cur n [] = Inr n"
| "walk fs cur n (c # cs) =
     (case n of
        File content \<Rightarrow> Inl NotADirectoryError
      | Dir \<Rightarrow>
          (case fs (cur @ [c]) of
             None \<Rightarrow> Inl FileNotFoundError
           | Some n' \<Rightarrow> walk fs (cur @ [c]) n' cs))"

definition stat :: "filesystem \<Rightarrow> path \<Rightarrow> os_error + node" where
  "stat fs p = walk fs [] Dir p"

text \<open>\<^verbatim>\<open>Path.exists()\<close>: the result of \<open>stat\<close>, with ENOENT and ENOTDIR read as absent.\<close>

definition path_exists :: "filesystem \<Rightarrow> path \<Rightarrow> bool" where
  "path_exists fs p = (case stat fs p of Inr n \<Rightarrow> True | Inl e \<Rightarrow> False)"

definition is_dir :: "filesystem \<Rightarrow> path \<Rightarrow> bool" where
  "is_dir fs p = (stat fs p = Inr Dir)"

text \<open>\<^verbatim>\<open>os.mkdir(p)\<close>: the parent must resolve to a directory and \<open>p\<close> must not exist.\<close>

definition os_mkdir :: "path \<Rightarrow> filesystem \<Rightarrow> os_error + filesystem" where
  "os_mkdir p fs =
     (if p = [] then Inl FileExistsError
      else
        (case stat fs (butlast p) of
           Inl e \<Rightarrow> Inl e
         | Inr (File content) \<Rightarrow> Inl NotADirectoryError
         | Inr Dir \<Rightarrow>
             (case fs p of
                Some n \<Rightarrow> Inl FileExistsError
              | None \<Rightarrow> Inr (fs(p \<mapsto> Dir)))))"

text \<open>
  \<^verbatim>\<open>Path.mkdir(parents=False, exist_ok=exist_ok)\<close>: \<^verbatim>\<open>os.mkdir\<close>; FileNotFoundError is
  raised again, any other error is raised again unless \<open>exist_ok\<close> holds and the path is a
  directory.
\<close>

definition mkdir_single ::
  "bool \<Rightarrow> path \<Rightarrow> filesystem \<Rightarrow> py_exception option \<times> filesystem" where
  "mkdir_single exist_ok p fs =
     (case os_mkdir p fs of
        Inr fs' \<Rightarrow> (None, fs')
      | Inl e \<Rightarrow>
          (if e = FileNotFoundError then (Some (OSError e), fs)
           else if exist_ok \<and> is_dir fs p then (None, fs)
           else (Some (OSError e), fs)))"

text \<open>
  \<^verbatim>\<open>Path.mkdir(parents=True, exist_ok=exist_ok)\<close>: on FileNotFoundError (unless the path
  is its own parent) the parent is made by \<^verbatim>\<open>mkdir(parents=True, exist_ok=True)\<close> and the
  path itself by \<^verbatim>\<open>mkdir(parents=False, exist_ok=exist_ok)\<close>.
\<close>

function mkdir_parents ::
  "bool \<Rightarrow> path \<Rightarrow> filesystem \<Rightarrow> py_exception option \<times> filesystem" where
  "mkdir_parents exist_ok p fs =
     (case os_mkdir p fs of
        Inr fs' \<Rightarrow> (None, fs')
      | Inl e \<Rightarrow>
          (if e = FileNotFoundError then
             (if p = [] then (Some (OSError e), fs)
              else
                (case mkdir_parents True (butlast p) fs of
                   (Some x, fs') \<Rightarrow> (Some x, fs')
                 | (None, fs') \<Rightarrow> mkdir_single exist_ok p fs'))
           else if exist_ok \<and> is_dir fs p then (None, fs)
           else (Some (OSError e), fs)))"
  by pat_completeness auto
termination
  by (relation "measure (\<lambda>(exist_ok, p, fs). length p)") auto

declare mkdir_parents.simps [simp del]

text \<open>
  \<^verbatim>\<open>Path.write_text(text)\<close>: \<^verbatim>\<open>open(p, 'w')\<close> creates the file or truncates the one
  that is there, then the text is written.
\<close>

definition write_text :: "path \<Rightarrow> string \<Rightarrow> filesystem \<Rightarrow> py_exception option \<times> filesystem" where
  "write_text p content fs =
     (if p = [] then (Some (OSError IsADirectoryError), fs)
      else
        (case stat fs (butlast p) of
           Inl e \<Rightarrow> (Some (OSError e), fs)
         | Inr (File parent_content) \<Rightarrow> (Some (OSError NotADirectoryError), fs)
         | Inr Dir \<Rightarrow>
             (case fs p of
                Some Dir \<Rightarrow> (Some (OSError IsADirectoryError), fs)
              | Some (File old_content) \<Rightarrow> (None, fs(p \<mapsto> File content))
              | None \<Rightarrow> (None, fs(p \<mapsto> File content)))))"

text \<open>
  \<^verbatim>\<open>Path.touch()\<close> (\<open>exist_ok=True\<close>): when \<^verbatim>\<open>os.utime\<close> succeeds (the path exists)
  nothing else is done; otherwise the file is opened with \<^verbatim>\<open>O_CREAT\<close> and closed.
\<close>

definition touch :: "path \<Rightarrow> filesystem \<Rightarrow> py_exception option \<times> filesystem" where
  "touch p fs =
     (if path_exists fs p then (None, fs)
      else
        (case stat fs (butlast p) of
           Inl e \<Rightarrow> (Some (OSError e), fs)
         | Inr (File parent_content) \<Rightarrow> (Some (OSError NotADirectoryError), fs)
         | Inr Dir \<Rightarrow> (None, fs(p \<mapsto> File []))))"

subsection \<open>The scaffolder\<close>

text \<open>
  How a run ends: it returns, it leaves through \<^verbatim>\<open>sys.exit(code)\<close>, or an exception
  escapes.
\<close>

datatype outcome = Returned | SysExit int | Raised py_exception

text \<open>Statement sequencing: an exception of the first statement ends the run.\<close>

definition and_then ::
  "py_exception option \<times> filesystem \<Rightarrow> (filesystem \<Rightarrow> outcome \<times> filesystem) \<Rightarrow>
     outcome \<times> filesystem" where
  "and_then r k = (case r of (Some e, fs') \<Rightarrow> (Raised e, fs') | (None, fs') \<Rightarrow> k fs')"

text \<open>
  \<^verbatim>\<open>path.write_text(template.format(...))\<close>: the text is formatted first, then written.
\<close>

definition write_formatted ::
  "path \<Rightarrow> string \<Rightarrow> (string \<times> string) list \<Rightarrow> filesystem \<Rightarrow>
     py_exception option \<times> filesystem" where
  "write_formatted p template kwargs fs =
     (case str_format template kwargs of
        Inl e \<Rightarrow> (Some e, fs)
      | Inr content \<Rightarrow> write_text p content fs)"

text \<open>
  \<open>create_skill_directory\<close>. \<^verbatim>\<open>output_path / skill_name\<close> appends the name as one
  component, which is what pathlib does for a name without a separator that is not a dot
  name; \<open>main\<close> passes only names that \<open>validate_skill_name\<close> accepted.
\<close>

definition create_skill_directory :: "string \<Rightarrow> path \<Rightarrow> filesystem \<Rightarrow> outcome \<times> filesystem" where
  "create_skill_directory skill_name output_path fs =
     (let skill_dir = output_path @ [skill_name] in
      if path_exists fs skill_dir then (SysExit 1, fs)
      else
        and_then (mkdir_parents False (skill_dir @ [''scripts'']) fs) (\<lambda>fs.
        and_then (mkdir_parents False (skill_dir @ [''references'']) fs) (\<lambda>fs.
        and_then (mkdir_parents False (skill_dir @ [''assets'']) fs) (\<lambda>fs.
        let skill_title = title (replace_char CHR ''_'' CHR '' '' (replace_char CHR ''-'' CHR '' '' skill_name)) in
        and_then (write_formatted (skill_dir @ [''SKILL.md'']) SKILL_MD_TEMPLATE
                    [(''skill_name'', skill_name), (''skill_title'', skill_title)] fs) (\<lambda>fs.
        and_then (write_formatted (skill_dir @ [''scripts'', ''example.py'']) EXAMPLE_SCRIPT
                    [(''skill_name'', skill_name)] fs) (\<lambda>fs.
        and_then (write_formatted (skill_dir @ [''references'', ''example.md'']) EXAMPLE_REFERENCE
                    [(''skill_name'', skill_name)] fs) (\<lambda>fs.
        and_then (touch (skill_dir @ [''assets'', ''.gitkeep'']) fs) (\<lambda>fs.
        (Returned, fs)))))))))"

text \<open>\<open>main\<close>, after argument parsing: the name check guards the scaffolding.\<close>

definition main :: "string \<Rightarrow> path \<Rightarrow> filesystem \<Rightarrow> outcome \<times> filesystem" where
  "main skill_name output_path fs =
     (if validate_skill_name skill_name then create_skill_directory skill_name output_path fs
      else (SysExit 1, fs))"

subsection \<open>Reading a manifest\<close>

text \<open>
  The validator of the specification reads the manifest line by line and trims the values
  it checks. \<^verbatim>\<open>text.split('\n')\<close>: the lines of a text, the last one possibly empty.
\<close>

fun split_lines :: "string \<Rightarrow> string list" where
  "split_lines [] = [[]]"
| "split_lines (c # cs) =
     (if c = CHR 0x0A then [] # split_lines cs
      else (case split_lines cs of
              l # ls \<Rightarrow> (c # l) # ls
            | [] \<Rightarrow> [[c]]))"

text \<open>\<^verbatim>\<open>'\n'.join(lines)\<close>.\<close>

fun join_lines :: "string list \<Rightarrow> string" where
  "join_lines [] = []"
| "join_lines [l] = l"
| "join_lines (l # ls) = l @ CHR 0x0A # join_lines ls"

text \<open>The ASCII whitespace characters, which \<^verbatim>\<open>str.strip()\<close> removes.\<close>

definition is_space :: "char \<Rightarrow> bool" where
  "is_space c = (c = CHR '' '' \<or> c = CHR 0x09 \<or> c = CHR 0x0A \<or> c = CHR 0x0B \<or>
                 c = CHR 0x0C \<or> c = CHR 0x0D)"

text \<open>\<^verbatim>\<open>str.strip()\<close>: whitespace removed at both ends.\<close>

definition strip :: "string \<Rightarrow> string" where
  "strip s = rev (dropWhile is_space (rev (dropWhile is_space s)))"

subsection \<open>The manifest validator and the packager of the specification\<close>

text \<open>
  Modelled from the spec: one failed rule of the validator (sections 4.1 and 7). The
  validator and the packager are not among the sources; the spec calls a violation a
  human-readable string and does not give its text, so each constructor stands for the
  message of one rule, with the lengths or the file name the message reports.
\<close>

datatype violation =
    ManifestMissing
  | FrontmatterMissing
  | NameMissing
  | DescriptionMissing
  | DescriptionTooShort nat nat
  | DescriptionPlaceholder
  | BodyTooShort nat nat
  | ForbiddenFile string

text \<open>Modelled from the spec: ValidationResult (section 3), the pair of isValid and violations.\<close>

record validation_result =
  isValid :: bool
  violations :: "violation list"

text \<open>
  Modelled from the spec: the minimum length of the trimmed description (section 4.1,
  rule 4).
\<close>

definition MIN_DESCRIPTION_LENGTH :: nat where
  "MIN_DESCRIPTION_LENGTH = 50"

text \<open>Modelled from the spec: the minimum length of the trimmed body (section 4.1, rule 5).\<close>

definition MIN_BODY_LENGTH :: nat where
  "MIN_BODY_LENGTH = 100"

text \<open>Modelled from the spec: the denylist of file names (section 4.1, rule 6).\<close>

definition FORBIDDEN_FILES :: "string list" where
  "FORBIDDEN_FILES = [''README.md'', ''CHANGELOG.md'', ''INSTALLATION_GUIDE.md'']"

text \<open>
  Modelled from the spec: the manifest's file name, the glossary's SKILL.md, which is also
  the file the scaffolder writes.
\<close>

definition MANIFEST_NAME :: string where
  "MANIFEST_NAME = ''SKILL.md''"

text \<open>
  Modelled from the spec: frontmatter presence (section 4.1, rule 2). The content must
  begin with a line containing only the fence marker, then any number of lines, then
  another line containing only the fence marker; the rest of the content is the body.
  \<open>until_fence\<close> splits the lines after the opening fence at the first closing fence.
\<close>

fun until_fence :: "string list \<Rightarrow> (string list \<times> string list) option" where
  "until_fence [] = None"
| "until_fence (l # ls) =
     (if l = ''---'' then Some ([], ls)
      else (case until_fence ls of
              None \<Rightarrow> None
            | Some (frontmatter, body) \<Rightarrow> Some (l # frontmatter, body)))"

text \<open>
  Modelled from the spec: the manifest split into its frontmatter lines and its body
  (section 3, Manifest), or nothing when the frontmatter is missing.
\<close>

definition parse_manifest :: "string \<Rightarrow> (string list \<times> string) option" where
  "parse_manifest content =
     (case split_lines content of
        [] \<Rightarrow> None
      | l # ls \<Rightarrow>
          (if l = ''---'' then
             (case until_fence ls of
                None \<Rightarrow> None
              | Some (frontmatter, body) \<Rightarrow> Some (frontmatter, join_lines body))
           else None))"

text \<open>
  Modelled from the spec: the name field (rule 3), a frontmatter line of the form
  \<^verbatim>\<open>name:\<close> followed by at least one non-whitespace character.
\<close>

definition has_name :: "string list \<Rightarrow> bool" where
  "has_name frontmatter =
     list_ex (\<lambda>l. prefix ''name:'' l \<and> list_ex (\<lambda>c. \<not> is_space c) (drop 5 l)) frontmatter"

text \<open>
  Modelled from the spec: the description field (rule 4), a frontmatter line
  \<^verbatim>\<open>description:\<close> followed by text; its value is the text after the colon.
\<close>

definition description_value :: "string list \<Rightarrow> string option" where
  "description_value frontmatter =
     (case filter (\<lambda>l. prefix ''description:'' l \<and> drop 12 l \<noteq> []) frontmatter of
        [] \<Rightarrow> None
      | l # ls \<Rightarrow> Some (drop 12 l))"

text \<open>
  Modelled from the spec: the placeholder rule (rule 4), the trimmed description holds both
  a literal \<^verbatim>\<open>[\<close> and a literal \<^verbatim>\<open>]\<close>.
\<close>

definition has_placeholder :: "string \<Rightarrow> bool" where
  "has_placeholder description = (CHR ''['' \<in> set description \<and> CHR '']'' \<in> set description)"

text \<open>
  Modelled from the spec: the description rules (rule 4). A missing description is one
  violation and skips the two checks; a present one is trimmed, then checked for its
  length and, independently, for placeholder text.
\<close>

definition description_rules :: "string list \<Rightarrow> violation list" where
  "description_rules frontmatter =
     (case description_value frontmatter of
        None \<Rightarrow> [DescriptionMissing]
      | Some v \<Rightarrow>
          (if length (strip v) < MIN_DESCRIPTION_LENGTH
           then [DescriptionTooShort (length (strip v)) MIN_DESCRIPTION_LENGTH] else []) @
          (if has_placeholder (strip v) then [DescriptionPlaceholder] else []))"

text \<open>Modelled from the spec: the body length rule (rule 5), on the trimmed body.\<close>

definition body_rule :: "string \<Rightarrow> violation list" where
  "body_rule body =
     (if length (strip body) < MIN_BODY_LENGTH
      then [BodyTooShort (length (strip body)) MIN_BODY_LENGTH] else [])"

text \<open>
  Modelled from the spec: the forbidden files rule (rule 6), one violation for each
  denylisted name found directly inside the skill directory.
\<close>

definition forbidden_rule :: "filesystem \<Rightarrow> path \<Rightarrow> violation list" where
  "forbidden_rule fs skill_dir =
     map ForbiddenFile (filter (\<lambda>f. path_exists fs (skill_dir @ [f])) FORBIDDEN_FILES)"

text \<open>
  Modelled from the spec: \<open>validate\<close> (section 4.1). Rules in the fixed order; a missing
  manifest file and a missing frontmatter each end the validation with that one
  violation; the other rules each add their violations; the result is valid exactly when
  there is no violation.
\<close>

definition validate :: "filesystem \<Rightarrow> path \<Rightarrow> validation_result" where
  "validate fs skill_dir =
     (case stat fs (skill_dir @ [MANIFEST_NAME]) of
        Inr (File content) \<Rightarrow>
          (case parse_manifest content of
             None \<Rightarrow> \<lparr>isValid = False, violations = [FrontmatterMissing]\<rparr>
           | Some (frontmatter, body) \<Rightarrow>
               (let vs = (if has_name frontmatter then [] else [NameMissing]) @
                         description_rules frontmatter @ body_rule body @
                         forbidden_rule fs skill_dir
                in \<lparr>isValid = (vs = []), violations = vs\<rparr>))
      | Inr Dir \<Rightarrow> \<lparr>isValid = False, violations = [ManifestMissing]\<rparr>
      | Inl e \<Rightarrow> \<lparr>isValid = False, violations = [ManifestMissing]\<rparr>)"

text \<open>Modelled from the spec: how packaging fails (section 7), by validation or by I/O.\<close>

datatype package_error = ValidationFailed "violation list" | IOFailure py_exception

text \<open>
  Modelled from the spec: renaming a file (section 4.2, step 5), replacing a file at the
  target.
\<close>

definition os_rename :: "path \<Rightarrow> path \<Rightarrow> filesystem \<Rightarrow> os_error + filesystem" where
  "os_rename src dst fs =
     (case stat fs src of
        Inl e \<Rightarrow> Inl e
      | Inr Dir \<Rightarrow> Inl IsADirectoryError
      | Inr (File content) \<Rightarrow>
          (if dst = [] then Inl IsADirectoryError
           else
             (case stat fs (butlast dst) of
                Inl e \<Rightarrow> Inl e
              | Inr (File parent_content) \<Rightarrow> Inl NotADirectoryError
              | Inr Dir \<Rightarrow>
                  (case fs dst of
                     Some Dir \<Rightarrow> Inl IsADirectoryError
                   | Some (File old_content) \<Rightarrow> Inr ((fs(src := None))(dst \<mapsto> File content))
                   | None \<Rightarrow> Inr ((fs(src := None))(dst \<mapsto> File content))))))"

text \<open>
  Modelled from the spec: \<open>package\<close> (section 4.2). Validation first, and a failed
  validation ends the operation before anything is written; then the output directory is
  ensured, the archive is written under the generic archive name and renamed to
  \<^verbatim>\<open><skillName>.skill\<close>. The bytes of the archive are a parameter: \<open>archive_bytes\<close> maps the
  skill's name and the tree below the skill directory to the compressed content.
\<close>

definition package ::
  "(string \<Rightarrow> (path \<Rightarrow> node option) \<Rightarrow> string) \<Rightarrow> path \<Rightarrow> path \<Rightarrow> filesystem \<Rightarrow>
     (package_error + path) \<times> filesystem" where
  "package archive_bytes skill_dir output_dir fs =
     (let result = validate fs skill_dir in
      if isValid result then
        (case mkdir_parents True output_dir fs of
           (Some e, fs1) \<Rightarrow> (Inl (IOFailure e), fs1)
         | (None, fs1) \<Rightarrow>
             (let skill_name = (if skill_dir = [] then [] else last skill_dir);
                  generic = output_dir @ [skill_name @ ''.zip''];
                  target = output_dir @ [skill_name @ ''.skill'']
              in case write_text generic
                        (archive_bytes skill_name (\<lambda>r. fs1 (skill_dir @ r))) fs1 of
                   (Some e, fs2) \<Rightarrow> (Inl (IOFailure e), fs2)
                 | (None, fs2) \<Rightarrow>
                     (case os_rename generic target fs2 of
                        Inl e \<Rightarrow> (Inl (IOFailure (OSError e)), fs2)
                      | Inr fs3 \<Rightarrow> (Inr target, fs3))))
      else (Inl (ValidationFailed (violations result)), fs))"

text \<open>
  Two manifests with a valid structure, used as concrete instances: their bodies are 99 and
  100 characters long.
\<close>

definition manifest_99 :: string where
  "manifest_99 = ''---\<newline>name: demo\<newline>description: A skill that shows how packaging works in this repository, for tests\<newline>---\<newline>012345678901234567890123456789012345678901234567890123456789012345678901234567890123456789012345678''"

definition manifest_100 :: string where
  "manifest_100 = ''---\<newline>name: demo\<newline>description: A skill that shows how packaging works in this repository, for tests\<newline>---\<newline>0123456789012345678901234567890123456789012345678901234567890123456789012345678901234567890123456789''"

subsection \<open>Predicates used to state the results\<close>

text \<open>
  \<open>with_dirs fs p\<close>: the filesystem \<open>fs\<close> with a directory at every component prefix of
  \<open>p\<close> that has no entry yet.
\<close>

definition with_dirs :: "filesystem \<Rightarrow> path \<Rightarrow> filesystem" where
  "with_dirs fs p = (\<lambda>q. if prefix q p \<and> q \<noteq> [] \<and> fs q = None then Some Dir else fs q)"

text \<open>
  The map is a filesystem tree when every entry lies in a directory that resolves.
\<close>

definition tree_shaped :: "filesystem \<Rightarrow> bool" where
  "tree_shaped fs = (\<forall>p. fs p \<noteq> None \<longrightarrow> p \<noteq> [] \<and> is_dir fs (butlast p))"

text \<open>Nothing is stored at \<open>d\<close> or below it.\<close>

definition unused_below :: "filesystem \<Rightarrow> path \<Rightarrow> bool" where
  "unused_below fs d = (\<forall>r. fs (d @ r) = None)"

text \<open>The text a template renders to (empty when formatting raises).\<close>

definition rendered :: "string \<Rightarrow> (string \<times> string) list \<Rightarrow> string" where
  "rendered template kwargs = (case str_format template kwargs of Inr content \<Rightarrow> content | Inl e \<Rightarrow> [])"

text \<open>
  The tree of a freshly scaffolded skill, by path relative to the skill directory.
\<close>

definition scaffold :: "string \<Rightarrow> path \<Rightarrow> node option" where
  "scaffold skill_name r =
     (if r = [] \<or> r = [''scripts''] \<or> r = [''references''] \<or> r = [''assets''] then Some Dir
      else if r = [''SKILL.md''] then
        Some (File (rendered SKILL_MD_TEMPLATE
          [(''skill_name'', skill_name),
           (''skill_title'', title (replace_char CHR ''_'' CHR '' ''
              (replace_char CHR ''-'' CHR '' '' skill_name)))]))
      else if r = [''scripts'', ''example.py''] then
        Some (File (rendered EXAMPLE_SCRIPT [(''skill_name'', skill_name)]))
      else if r = [''references'', ''example.md''] then
        Some (File (rendered EXAMPLE_REFERENCE [(''skill_name'', skill_name)]))
      else if r = [''assets'', ''.gitkeep''] then Some (File [])
      else None)"

text \<open>
  The text of a scaffolded manifest, piece by piece: the placeholder of the template's
  description line, the text after the closing fence, the two frontmatter lines, and the
  whole manifest for a skill name and title (\<open>rendered_SKILL_MD\<close> shows that the template
  renders to it).
\<close>

definition DESCRIPTION_PLACEHOLDER :: string where
  "DESCRIPTION_PLACEHOLDER =
     ''[Describe what this skill does and when to use it - minimum 50 characters]''"

definition manifest_body :: "string \<Rightarrow> string" where
  "manifest_body skill_title =
     ''\<newline># '' @ skill_title @
     ''\<newline>\<newline>## Overview\<newline>\<newline>[Describe the skill's purpose and capabilities]\<newline>\<newline>## Usage\<newline>\<newline>[Explain how to use this skill with examples]\<newline>\<newline>## Resources\<newline>\<newline>- `scripts/` - Executable scripts for deterministic tasks\<newline>- `references/` - Documentation loaded as needed\<newline>- `assets/` - Templates and files used in output\<newline>''"

definition name_line :: "string \<Rightarrow> string" where
  "name_line skill_name = ''name: '' @ skill_name"

definition description_line :: string where
  "description_line = ''description: '' @ DESCRIPTION_PLACEHOLDER"

definition manifest_text :: "string \<Rightarrow> string \<Rightarrow> string" where
  "manifest_text skill_name skill_title =
     ''---'' @ CHR 0x0A # name_line skill_name @ CHR 0x0A #
     description_line @ CHR 0x0A # ''---'' @ CHR 0x0A #
     manifest_body skill_title"

subsection \<open>Facts about the name check\<close>

lemma name_char_not_newline: "name_char c \<Longrightarrow> c \<noteq> CHR 0x0A"
  by (auto simp: name_char_def)

lemma class_plus_dollar_iff:
  "class_plus_dollar s \<longleftrightarrow>
     (\<exists>cs. list_all name_char cs \<and> (s = cs \<or> s = cs @ [CHR 0x0A]))"
proof (induction s)
  case Nil
  show ?case by (simp add: re_dollar_def)
next
  case (Cons c s)
  show ?case
  proof
    assume a: "class_plus_dollar (c # s)"
    show "\<exists>cs. list_all name_char cs \<and> (c # s = cs \<or> c # s = cs @ [CHR 0x0A])"
    proof (cases "re_dollar (c # s)")
      case True
      then have "c # s = [] @ [CHR 0x0A]" by (simp add: re_dollar_def)
      then show ?thesis by (intro exI[of _ "[]"]) simp
    next
      case False
      with a have c: "name_char c" and "class_plus_dollar s" by simp_all
      with Cons.IH obtain cs where cs: "list_all name_char cs"
        and s: "s = cs \<or> s = cs @ [CHR 0x0A]" by blast
      from c cs s show ?thesis by (intro exI[of _ "c # cs"]) auto
    qed
  next
    assume "\<exists>cs. list_all name_char cs \<and> (c # s = cs \<or> c # s = cs @ [CHR 0x0A])"
    then obtain cs where cs: "list_all name_char cs"
      and s: "c # s = cs \<or> c # s = cs @ [CHR 0x0A]" by blast
    show "class_plus_dollar (c # s)"
    proof (cases cs)
      case Nil
      with s show ?thesis by (simp add: re_dollar_def)
    next
      case (Cons d ds)
      with s have "c = d" and "s = ds \<or> s = ds @ [CHR 0x0A]" by auto
      moreover from cs Cons have "name_char d" and "list_all name_char ds" by simp_all
      ultimately show ?thesis using Cons.IH by auto
    qed
  qed
qed

text \<open>
  The strings the check accepts: the non-empty strings of class characters, and each of
  them followed by one newline.
\<close>

lemma validate_skill_name_iff:
  "validate_skill_name name \<longleftrightarrow>
     (only_allowed_chars name \<or>
      (\<exists>cs. only_allowed_chars cs \<and> name = cs @ [CHR 0x0A]))"
proof (cases name)
  case Nil
  then show ?thesis by (simp add: validate_skill_name_def only_allowed_chars_def)
next
  case (Cons c s)
  show ?thesis
  proof
    assume "validate_skill_name name"
    with Cons have c: "name_char c" and "class_plus_dollar s"
      by (simp_all add: validate_skill_name_def)
    then obtain cs where cs: "list_all name_char cs" and s: "s = cs \<or> s = cs @ [CHR 0x0A]"
      by (auto simp: class_plus_dollar_iff)
    from s show "only_allowed_chars name \<or>
        (\<exists>cs. only_allowed_chars cs \<and> name = cs @ [CHR 0x0A])"
    proof
      assume "s = cs"
      with Cons c cs show ?thesis by (simp add: only_allowed_chars_def)
    next
      assume "s = cs @ [CHR 0x0A]"
      with Cons c cs have "only_allowed_chars (c # cs) \<and> name = (c # cs) @ [CHR 0x0A]"
        by (simp add: only_allowed_chars_def)
      then show ?thesis by blast
    qed
  next
    assume "only_allowed_chars name \<or>
        (\<exists>cs. only_allowed_chars cs \<and> name = cs @ [CHR 0x0A])"
    then show "validate_skill_name name"
    proof
      assume "only_allowed_chars name"
      with Cons have "name_char c" and "list_all name_char s"
        by (simp_all add: only_allowed_chars_def)
      then show ?thesis
        using Cons class_plus_dollar_iff[of s] by (auto simp: validate_skill_name_def)
    next
      assume "\<exists>cs. only_allowed_chars cs \<and> name = cs @ [CHR 0x0A]"
      then obtain cs where cs: "only_allowed_chars cs" and n: "name = cs @ [CHR 0x0A]"
        by blast
      from cs obtain d ds where d: "cs = d # ds"
        by (cases cs) (simp_all add: only_allowed_chars_def)
      with cs have "name_char d" and "list_all name_char ds"
        by (simp_all add: only_allowed_chars_def)
      moreover from n d Cons have "c = d" and "s = ds @ [CHR 0x0A]" by simp_all
      ultimately show ?thesis
        using Cons class_plus_dollar_iff[of s] by (auto simp: validate_skill_name_def)
    qed
  qed
qed

lemma only_allowed_chars_accepted: "only_allowed_chars name \<Longrightarrow> validate_skill_name name"
  by (simp add: validate_skill_name_iff)

text \<open>
  Claim C1 (the name check accepts a string if and only if it is non-empty and consists
  only of ASCII letters, digits, hyphens and underscores). The check accepts the name
  \<^verbatim>\<open>abc\<close> followed by a newline, which is not such a string: \<^verbatim>\<open>$\<close> also matches
  before a final newline.
\<close>

theorem validate_skill_name_trailing_newline:
  "validate_skill_name ''abc\<newline>'' = True \<and> only_allowed_chars ''abc\<newline>'' = False"
  by (simp add: validate_skill_name_def only_allowed_chars_def name_char_def re_dollar_def)

subsection \<open>Path resolution\<close>

lemma walk_append:
  "walk fs cur n (cs @ ds) =
     (case walk fs cur n cs of Inl e \<Rightarrow> Inl e | Inr n' \<Rightarrow> walk fs (cur @ cs) n' ds)"
  by (induction cs arbitrary: cur n) (auto split: node.splits option.splits sum.splits)

lemma walk_Inr_lookup:
  "walk fs cur n cs = Inr n' \<Longrightarrow> cs \<noteq> [] \<Longrightarrow> fs (cur @ cs) = Some n'"
proof (induction cs arbitrary: cur n)
  case Nil
  then show ?case by simp
next
  case (Cons c cs)
  from Cons.prems(1) obtain m where n: "n = Dir" and m: "fs (cur @ [c]) = Some m"
    and w: "walk fs (cur @ [c]) m cs = Inr n'"
    by (auto split: node.splits option.splits)
  show ?case
  proof (cases "cs = []")
    case True
    with m w show ?thesis by simp
  next
    case False
    with Cons.IH[OF w] show ?thesis by simp
  qed
qed

lemma walk_cong:
  "(\<And>q. q \<noteq> [] \<Longrightarrow> prefix q cs \<Longrightarrow> fs (cur @ q) = fs' (cur @ q)) \<Longrightarrow>
     walk fs cur n cs = walk fs' cur n cs"
proof (induction cs arbitrary: cur n)
  case Nil
  show ?case by simp
next
  case (Cons c cs)
  have h: "fs (cur @ [c]) = fs' (cur @ [c])"
    using Cons.prems[of "[c]"] by simp
  have "walk fs (cur @ [c]) m cs = walk fs' (cur @ [c]) m cs" for m
  proof (rule Cons.IH)
    fix q assume "q \<noteq> []" "prefix q cs"
    then show "fs ((cur @ [c]) @ q) = fs' ((cur @ [c]) @ q)"
      using Cons.prems[of "c # q"] by simp
  qed
  with h show ?case by (auto split: node.splits option.splits)
qed

lemma stat_cong:
  "(\<And>q. q \<noteq> [] \<Longrightarrow> prefix q p \<Longrightarrow> fs q = fs' q) \<Longrightarrow> stat fs p = stat fs' p"
  unfolding stat_def using walk_cong[of p fs "[]" fs' Dir] by simp

lemma stat_snoc:
  "stat fs (p @ [c]) =
     (case stat fs p of
        Inl e \<Rightarrow> Inl e
      | Inr (File x) \<Rightarrow> Inl NotADirectoryError
      | Inr Dir \<Rightarrow> (case fs (p @ [c]) of None \<Rightarrow> Inl FileNotFoundError | Some n \<Rightarrow> Inr n))"
  by (simp add: stat_def walk_append split: sum.splits node.splits option.splits)

lemma stat_Nil [simp]: "stat fs [] = Inr Dir"
  by (simp add: stat_def)

lemma stat_Inr_lookup: "stat fs p = Inr n \<Longrightarrow> p \<noteq> [] \<Longrightarrow> fs p = Some n"
  unfolding stat_def using walk_Inr_lookup[of fs "[]" Dir p n] by simp

lemma stat_append_Inr:
  "stat fs (p @ q) = Inr n \<Longrightarrow> \<exists>m. stat fs p = Inr m"
  by (auto simp: stat_def walk_append split: sum.splits)

lemma stat_prefix_Dir:
  assumes "stat fs p = Inr n" and "strict_prefix q p"
  shows "stat fs q = Inr Dir"
proof -
  from assms(2) obtain c r where p: "p = q @ c # r"
    by (auto simp: strict_prefix_def prefix_def) (metis list.exhaust append_Nil2)
  with assms(1) have "stat fs ((q @ [c]) @ r) = Inr n" by simp
  then obtain m where "stat fs (q @ [c]) = Inr m" using stat_append_Inr by blast
  then show ?thesis
    by (auto simp: stat_snoc split: sum.splits node.splits)
qed

lemma is_dir_prefix:
  "is_dir fs p \<Longrightarrow> prefix q p \<Longrightarrow> is_dir fs q"
  unfolding is_dir_def using stat_prefix_Dir[of fs p Dir q] by (auto simp: prefix_order.le_less)

lemma is_dir_lookup: "is_dir fs p \<Longrightarrow> prefix q p \<Longrightarrow> q \<noteq> [] \<Longrightarrow> fs q = Some Dir"
  using is_dir_prefix[of fs p q] stat_Inr_lookup[of fs q Dir] by (simp add: is_dir_def)

subsection \<open>Creating directories and files\<close>

lemma os_mkdir_Inr:
  "os_mkdir p fs = Inr fs' \<longleftrightarrow>
     p \<noteq> [] \<and> is_dir fs (butlast p) \<and> fs p = None \<and> fs' = fs(p \<mapsto> Dir)"
  by (auto simp: os_mkdir_def is_dir_def split: sum.splits node.splits option.splits)

lemma is_dir_upd_other:
  "\<not> prefix p q \<or> p = [] \<Longrightarrow> is_dir (fs(p \<mapsto> n)) q = is_dir fs q"
  unfolding is_dir_def
  by (rule arg_cong[where f = "\<lambda>x. x = Inr Dir"], rule stat_cong) auto

lemma not_prefix_butlast: "p \<noteq> [] \<Longrightarrow> \<not> prefix p (butlast p)"
  by (metis append_butlast_last_id prefix_order.dual_order.antisym prefix_def
      append_self_conv not_Cons_self2 prefixI)

lemma is_dir_created:
  assumes "p \<noteq> []" and "is_dir fs (butlast p)"
  shows "is_dir (fs(p \<mapsto> Dir)) p"
proof -
  from assms(1) obtain q c where p: "p = q @ [c]" by (cases p rule: rev_cases) auto
  have "is_dir (fs(p \<mapsto> Dir)) (butlast p)"
    using assms not_prefix_butlast[of p] by (simp add: is_dir_upd_other)
  with p have "stat (fs(q @ [c] \<mapsto> Dir)) q = Inr Dir" by (simp add: is_dir_def)
  then have "stat (fs(q @ [c] \<mapsto> Dir)) (q @ [c]) = Inr Dir"
    by (simp add: stat_snoc)
  with p show ?thesis by (simp add: is_dir_def)
qed

lemma with_dirs_created:
  assumes "p \<noteq> []" and "is_dir fs (butlast p)" and "fs p = None"
  shows "with_dirs fs p = fs(p \<mapsto> Dir)"
proof
  fix q
  show "with_dirs fs p q = (fs(p \<mapsto> Dir)) q"
  proof (cases "q = p")
    case True
    with assms show ?thesis by (simp add: with_dirs_def)
  next
    case False
    show ?thesis
    proof (cases "prefix q p \<and> q \<noteq> []")
      case True
      with False have "prefix q (butlast p)"
        using assms(1) by (metis append_butlast_last_id prefix_snoc)
      with assms(2) True have "fs q = Some Dir" by (simp add: is_dir_lookup)
      with False show ?thesis by (simp add: with_dirs_def)
    next
      case False
      with \<open>q \<noteq> p\<close> show ?thesis by (auto simp add: with_dirs_def)
    qed
  qed
qed

lemma with_dirs_is_dir: "is_dir fs p \<Longrightarrow> with_dirs fs p = fs"
  by (rule ext) (auto simp: with_dirs_def dest: is_dir_lookup)

lemma with_dirs_butlast:
  assumes "p \<noteq> []"
  shows "with_dirs (with_dirs fs (butlast p)) p = with_dirs fs p"
proof
  fix q
  have "prefix q p \<longleftrightarrow> q = p \<or> prefix q (butlast p)"
    using assms by (metis append_butlast_last_id prefix_snoc)
  then show "with_dirs (with_dirs fs (butlast p)) p q = with_dirs fs p q"
    by (auto simp: with_dirs_def)
qed

lemma mkdir_single_None:
  assumes "mkdir_single exist_ok p fs = (None, fs')"
  shows "fs' = with_dirs fs p \<and> is_dir fs' p"
proof (cases "os_mkdir p fs")
  case (Inr g)
  then have "p \<noteq> []" "is_dir fs (butlast p)" "fs p = None" "g = fs(p \<mapsto> Dir)"
    by (simp_all add: os_mkdir_Inr)
  moreover from assms Inr have "fs' = g" by (simp add: mkdir_single_def)
  ultimately show ?thesis by (simp add: with_dirs_created is_dir_created)
next
  case (Inl e)
  with assms have "is_dir fs p" and "fs' = fs"
    by (auto simp: mkdir_single_def split: if_splits)
  then show ?thesis by (simp add: with_dirs_is_dir)
qed

lemma mkdir_parents_None:
  "mkdir_parents exist_ok p fs = (None, fs') \<Longrightarrow> fs' = with_dirs fs p \<and> is_dir fs' p"
proof (induction exist_ok p fs arbitrary: fs' rule: mkdir_parents.induct)
  case (1 exist_ok p fs)
  show ?case
  proof (cases "os_mkdir p fs")
    case (Inr g)
    then have a: "p \<noteq> []" "is_dir fs (butlast p)" "fs p = None" and g: "g = fs(p \<mapsto> Dir)"
      by (simp_all add: os_mkdir_Inr)
    from "1.prems" Inr g have e: "fs' = fs(p \<mapsto> Dir)" by (simp add: mkdir_parents.simps[of exist_ok p fs])
    show ?thesis unfolding e
      by (rule conjI[OF sym[OF with_dirs_created[OF a]] is_dir_created[OF a(1,2)]])
  next
    case (Inl e)
    show ?thesis
    proof (cases "e = FileNotFoundError")
      case True
      with "1.prems" Inl have ne: "p \<noteq> []"
        by (auto simp: mkdir_parents.simps[of exist_ok p fs] split: if_splits)
      from "1.prems" Inl True ne obtain fs1 where
        r: "mkdir_parents True (butlast p) fs = (None, fs1)"
        and s: "mkdir_single exist_ok p fs1 = (None, fs')"
        by (auto simp: mkdir_parents.simps[of exist_ok p fs] split: prod.splits option.splits)
      from "1.IH"[OF Inl True ne r] have "fs1 = with_dirs fs (butlast p)" by simp
      moreover from mkdir_single_None[OF s] have "fs' = with_dirs fs1 p" "is_dir fs' p"
        by blast+
      ultimately show ?thesis using ne by (simp add: with_dirs_butlast)
    next
      case False
      with "1.prems" Inl have "is_dir fs p" and "fs' = fs"
        by (auto simp: mkdir_parents.simps[of exist_ok p fs] split: if_splits)
      then show ?thesis by (simp add: with_dirs_is_dir)
    qed
  qed
qed

lemma write_text_None:
  "write_text p content fs = (None, fs') \<Longrightarrow>
     fs' = fs(p \<mapsto> File content) \<and> p \<noteq> [] \<and> is_dir fs (butlast p)"
  by (auto simp: write_text_def is_dir_def split: if_splits sum.splits node.splits option.splits)

lemma write_formatted_None:
  "write_formatted p template kwargs fs = (None, fs') \<Longrightarrow>
     \<exists>content. str_format template kwargs = Inr content \<and> fs' = fs(p \<mapsto> File content)"
  by (auto simp: write_formatted_def split: sum.splits dest: write_text_None)

lemma touch_None:
  "touch p fs = (None, fs') \<Longrightarrow>
     (path_exists fs p \<and> fs' = fs) \<or> (fs p = None \<and> fs' = fs(p \<mapsto> File []))"
proof (cases "path_exists fs p")
  case True
  assume "touch p fs = (None, fs')"
  with True show ?thesis by (simp add: touch_def)
next
  case False
  assume t: "touch p fs = (None, fs')"
  with False have d: "stat fs (butlast p) = Inr Dir" and f: "fs' = fs(p \<mapsto> File [])"
    by (auto simp: touch_def split: sum.splits node.splits)
  from False have "p \<noteq> []" by (auto simp: path_exists_def)
  then have p: "p = butlast p @ [last p]" by simp
  have "fs p = None"
  proof (rule ccontr)
    assume "fs p \<noteq> None"
    then obtain n where "fs (butlast p @ [last p]) = Some n" using p by auto
    with d have "stat fs (butlast p @ [last p]) = Inr n" by (simp add: stat_snoc)
    with p False show False by (simp add: path_exists_def)
  qed
  with f show ?thesis by simp
qed

subsection \<open>Runs of the scaffolder that return\<close>

lemma and_then_Returned:
  "and_then r k = (Returned, fs') \<longleftrightarrow> (\<exists>g. r = (None, g) \<and> k g = (Returned, fs'))"
  by (auto simp: and_then_def split: prod.splits option.splits)

lemma create_skill_directory_Returned:
  assumes "create_skill_directory skill_name output_path fs = (Returned, fs')"
  obtains fs1 fs2 fs3 fs4 fs5 fs6 where
    "\<not> path_exists fs (output_path @ [skill_name])"
    "mkdir_parents False (output_path @ [skill_name, ''scripts'']) fs = (None, fs1)"
    "mkdir_parents False (output_path @ [skill_name, ''references'']) fs1 = (None, fs2)"
    "mkdir_parents False (output_path @ [skill_name, ''assets'']) fs2 = (None, fs3)"
    "write_formatted (output_path @ [skill_name, ''SKILL.md'']) SKILL_MD_TEMPLATE
       [(''skill_name'', skill_name),
        (''skill_title'', title (replace_char CHR ''_'' CHR '' ''
           (replace_char CHR ''-'' CHR '' '' skill_name)))] fs3 = (None, fs4)"
    "write_formatted (output_path @ [skill_name, ''scripts'', ''example.py'']) EXAMPLE_SCRIPT
       [(''skill_name'', skill_name)] fs4 = (None, fs5)"
    "write_formatted (output_path @ [skill_name, ''references'', ''example.md''])
       EXAMPLE_REFERENCE [(''skill_name'', skill_name)] fs5 = (None, fs6)"
    "touch (output_path @ [skill_name, ''assets'', ''.gitkeep'']) fs6 = (None, fs')"
  using assms
  by (auto simp: create_skill_directory_def Let_def and_then_Returned split: if_splits)

subsection \<open>The rendered templates\<close>

lemma format_SKILL_MD:
  "str_format SKILL_MD_TEMPLATE [(''skill_name'', n), (''skill_title'', t)] =
     Inr (''---\<newline>name: '' @ n @
          ''\<newline>description: [Describe what this skill does and when to use it - minimum 50 characters]\<newline>---\<newline>\<newline># '' @ t @
          ''\<newline>\<newline>## Overview\<newline>\<newline>[Describe the skill's purpose and capabilities]\<newline>\<newline>## Usage\<newline>\<newline>[Explain how to use this skill with examples]\<newline>\<newline>## Resources\<newline>\<newline>- `scripts/` - Executable scripts for deterministic tasks\<newline>- `references/` - Documentation loaded as needed\<newline>- `assets/` - Templates and files used in output\<newline>'')"
  by (simp add: SKILL_MD_TEMPLATE_def)

lemma format_EXAMPLE_SCRIPT:
  "str_format EXAMPLE_SCRIPT [(''skill_name'', n)] =
     Inr (''#!/usr/bin/env python3\<newline>\"\"\"Example script for '' @ n @
          ''.\"\"\"\<newline>\<newline>def main():\<newline>    \"\"\"Main entry point.\"\"\"\<newline>    print(\"Hello from '' @ n @
          ''!\")\<newline>\<newline>if __name__ == \"__main__\":\<newline>    main()\<newline>'')"
  by (simp add: EXAMPLE_SCRIPT_def)

lemma format_EXAMPLE_REFERENCE:
  "str_format EXAMPLE_REFERENCE [(''skill_name'', n)] =
     Inr (''# Reference Document\<newline>\<newline>This is an example reference document for '' @ n @
          ''.\<newline>\<newline>## Contents\<newline>\<newline>Add domain knowledge, guidelines, or documentation here that Codex\<newline>can load as needed during skill execution.\<newline>'')"
  by (simp add: EXAMPLE_REFERENCE_def)

subsection \<open>Filesystem trees\<close>

lemma tree_shaped_exists:
  "tree_shaped fs \<Longrightarrow> fs p \<noteq> None \<Longrightarrow> path_exists fs p"
proof -
  assume t: "tree_shaped fs" and s: "fs p \<noteq> None"
  then have ne: "p \<noteq> []" and d: "is_dir fs (butlast p)" by (auto simp: tree_shaped_def)
  from ne obtain q c where p: "p = q @ [c]" by (cases p rule: rev_cases) auto
  with d s show ?thesis
    by (auto simp: path_exists_def is_dir_def stat_snoc)
qed

lemma path_exists_prefix:
  "path_exists fs (p @ r) \<Longrightarrow> path_exists fs p"
  using stat_append_Inr[of fs p r] by (auto simp: path_exists_def split: sum.splits)

lemma tree_shaped_unused_below:
  "tree_shaped fs \<Longrightarrow> \<not> path_exists fs d \<Longrightarrow> unused_below fs d"
  unfolding unused_below_def
  using tree_shaped_exists path_exists_prefix by blast

lemma prefix_single: "prefix r [x] \<longleftrightarrow> r = [] \<or> r = [x]"
  by (cases r) auto

lemma is_dir_with_dirs: "is_dir fs p \<Longrightarrow> is_dir (with_dirs fs q) p"
proof -
  assume d: "is_dir fs p"
  have "stat (with_dirs fs q) p = stat fs p"
  proof (rule stat_cong)
    fix r assume "r \<noteq> []" "prefix r p"
    with d have "fs r = Some Dir" by (simp add: is_dir_lookup)
    then show "with_dirs fs q r = fs r" by (simp add: with_dirs_def)
  qed
  with d show ?thesis by (simp add: is_dir_def)
qed

lemmas scaffold_eval =
  create_skill_directory_def path_exists_def stat_def and_then_def mkdir_parents.simps
  os_mkdir_def mkdir_single_def write_formatted_def write_text_def touch_def is_dir_def Let_def
  format_SKILL_MD format_EXAMPLE_SCRIPT format_EXAMPLE_REFERENCE

text \<open>
  A name with a trailing newline passes the check of \<open>main\<close> and is scaffolded: the skill
  directory carries the newline in its name, and in the manifest the name is cut off at the
  newline, with an empty line after it.
\<close>

lemma main_trailing_newline:
  "fst (main ''abc\<newline>'' [''out''] Map.empty) = Returned \<and>
   snd (main ''abc\<newline>'' [''out''] Map.empty) [''out'', ''abc\<newline>''] = Some Dir \<and>
   (case snd (main ''abc\<newline>'' [''out''] Map.empty) [''out'', ''abc\<newline>'', ''SKILL.md''] of
      Some (File content) \<Rightarrow> take 3 (split_lines content) = [''---'', ''name: abc'', []]
    | Some Dir \<Rightarrow> False
    | None \<Rightarrow> False)"
  by (simp add: main_def validate_skill_name_def name_char_def re_dollar_def scaffold_eval)

subsection \<open>The tree a returning run leaves\<close>

lemma create_skill_directory_tree:
  assumes ret: "create_skill_directory skill_name output_path fs = (Returned, fs')"
    and un: "unused_below fs (output_path @ [skill_name])"
  shows "fs' (output_path @ skill_name # r) = scaffold skill_name r"
proof -
  have un': "fs (output_path @ skill_name # r) = None" for r
    using un[unfolded unused_below_def, rule_format, of r] by simp
  from ret obtain fs1 fs2 fs3 fs4 fs5 fs6 where
    m1: "mkdir_parents False (output_path @ [skill_name, ''scripts'']) fs = (None, fs1)" and
    m2: "mkdir_parents False (output_path @ [skill_name, ''references'']) fs1 = (None, fs2)" and
    m3: "mkdir_parents False (output_path @ [skill_name, ''assets'']) fs2 = (None, fs3)" and
    w1: "write_formatted (output_path @ [skill_name, ''SKILL.md'']) SKILL_MD_TEMPLATE
       [(''skill_name'', skill_name),
        (''skill_title'', title (replace_char CHR ''_'' CHR '' ''
           (replace_char CHR ''-'' CHR '' '' skill_name)))] fs3 = (None, fs4)" and
    w2: "write_formatted (output_path @ [skill_name, ''scripts'', ''example.py'']) EXAMPLE_SCRIPT
       [(''skill_name'', skill_name)] fs4 = (None, fs5)" and
    w3: "write_formatted (output_path @ [skill_name, ''references'', ''example.md''])
       EXAMPLE_REFERENCE [(''skill_name'', skill_name)] fs5 = (None, fs6)" and
    t: "touch (output_path @ [skill_name, ''assets'', ''.gitkeep'']) fs6 = (None, fs')"
    by (rule create_skill_directory_Returned)
  from mkdir_parents_None[OF m1]
  have f1: "fs1 = with_dirs fs (output_path @ [skill_name, ''scripts''])" by blast
  from mkdir_parents_None[OF m2]
  have f2: "fs2 = with_dirs fs1 (output_path @ [skill_name, ''references''])" by blast
  from mkdir_parents_None[OF m3]
  have f3: "fs3 = with_dirs fs2 (output_path @ [skill_name, ''assets''])" by blast
  have p: "prefix (output_path @ skill_name # r) (output_path @ [skill_name, x]) \<longleftrightarrow>
             r = [] \<or> r = [x]" for r x
    by (simp add: prefix_single)
  have g1: "fs1 (output_path @ skill_name # r) =
      (if r = [] \<or> r = [''scripts''] then Some Dir else None)" for r
    unfolding f1 by (simp add: with_dirs_def p un' prefix_single)
  have g2: "fs2 (output_path @ skill_name # r) =
      (if r = [] \<or> r = [''scripts''] \<or> r = [''references''] then Some Dir else None)" for r
    unfolding f2 by (simp add: with_dirs_def p g1 prefix_single)
  have g3: "fs3 (output_path @ skill_name # r) =
      (if r = [] \<or> r = [''scripts''] \<or> r = [''references''] \<or> r = [''assets''] then Some Dir
       else None)" for r
    unfolding f3 by (simp add: with_dirs_def p g2 prefix_single)
  from write_formatted_None[OF w1] have f4: "fs4 = fs3(output_path @ [skill_name, ''SKILL.md''] \<mapsto>
      File (rendered SKILL_MD_TEMPLATE [(''skill_name'', skill_name),
        (''skill_title'', title (replace_char CHR ''_'' CHR '' ''
           (replace_char CHR ''-'' CHR '' '' skill_name)))]))"
    by (auto simp: rendered_def)
  from write_formatted_None[OF w2] have f5: "fs5 = fs4(output_path @ [skill_name, ''scripts'', ''example.py''] \<mapsto>
      File (rendered EXAMPLE_SCRIPT [(''skill_name'', skill_name)]))"
    by (auto simp: rendered_def)
  from write_formatted_None[OF w3] have f6: "fs6 = fs5(output_path @ [skill_name, ''references'', ''example.md''] \<mapsto>
      File (rendered EXAMPLE_REFERENCE [(''skill_name'', skill_name)]))"
    by (auto simp: rendered_def)
  have g6: "fs6 (output_path @ skill_name # r) =
      (if r = [''assets'', ''.gitkeep''] then None else scaffold skill_name r)" for r
    unfolding f6 f5 f4 by (simp add: g3 scaffold_def)
  have k: "fs6 (output_path @ [skill_name, ''assets'', ''.gitkeep'']) = None"
    using g6[of "[''assets'', ''.gitkeep'']"] by simp
  then have "\<not> path_exists fs6 (output_path @ [skill_name, ''assets'', ''.gitkeep''])"
    using stat_Inr_lookup[of fs6 "output_path @ [skill_name, ''assets'', ''.gitkeep'']"]
    by (auto simp: path_exists_def split: sum.splits)
  with touch_None[OF t]
  have f7: "fs' = fs6(output_path @ [skill_name, ''assets'', ''.gitkeep''] \<mapsto> File [])"
    by blast
  show ?thesis
    unfolding f7 by (simp add: g6 scaffold_def)
qed

subsection \<open>The scaffolded manifest\<close>

lemma rendered_SKILL_MD:
  "rendered SKILL_MD_TEMPLATE [(''skill_name'', n), (''skill_title'', t)] = manifest_text n t"
  by (simp add: rendered_def format_SKILL_MD manifest_text_def manifest_body_def
      name_line_def description_line_def DESCRIPTION_PLACEHOLDER_def)

lemma split_lines_not_Nil [simp]: "split_lines s \<noteq> []"
  by (induction s) (auto split: list.splits)

lemma split_lines_append:
  "split_lines (xs @ CHR 0x0A # ys) = split_lines xs @ split_lines ys"
proof (induction xs)
  case Nil
  show ?case by simp
next
  case (Cons x xs)
  show ?case
  proof (cases "x = CHR 0x0A")
    case True
    with Cons show ?thesis by simp
  next
    case False
    obtain l ls where l: "split_lines xs = l # ls"
      by (cases "split_lines xs") simp_all
    with False Cons show ?thesis by simp
  qed
qed

lemma split_lines_single: "CHR 0x0A \<notin> set xs \<Longrightarrow> split_lines xs = [xs]"
  by (induction xs) auto

lemma join_lines_Cons: "ls \<noteq> [] \<Longrightarrow> join_lines (l # ls) = l @ CHR 0x0A # join_lines ls"
  by (cases ls) simp_all

lemma join_split_lines: "join_lines (split_lines s) = s"
proof (induction s)
  case Nil
  show ?case by simp
next
  case (Cons c s)
  obtain l ls where l: "split_lines s = l # ls"
    by (cases "split_lines s") simp_all
  show ?case
  proof (cases "c = CHR 0x0A")
    case True
    with Cons show ?thesis by (simp add: join_lines_Cons)
  next
    case False
    with Cons l show ?thesis by (cases ls) simp_all
  qed
qed

lemma until_fence_append:
  "''---'' \<notin> set ls \<Longrightarrow> until_fence (ls @ ''---'' # rest) = Some (ls, rest)"
  by (induction ls) auto

lemma stat_upd_other: "\<not> prefix p q \<Longrightarrow> stat (fs(p \<mapsto> n)) q = stat fs q"
  by (rule stat_cong) auto

lemma stat_file_written:
  "p \<noteq> [] \<Longrightarrow> is_dir fs (butlast p) \<Longrightarrow> stat (fs(p \<mapsto> File c)) p = Inr (File c)"
proof -
  assume ne: "p \<noteq> []" and d: "is_dir fs (butlast p)"
  from ne obtain q x where p: "p = q @ [x]" by (cases p rule: rev_cases) auto
  from d p have "stat (fs(q @ [x] \<mapsto> File c)) q = Inr Dir"
    by (simp add: stat_upd_other is_dir_def)
  with p show ?thesis by (simp add: stat_snoc)
qed

lemma create_skill_directory_manifest:
  assumes ret: "create_skill_directory skill_name output_path fs = (Returned, fs')"
  shows "stat fs' (output_path @ [skill_name] @ [MANIFEST_NAME]) =
     Inr (File (manifest_text skill_name (title (replace_char CHR ''_'' CHR '' ''
           (replace_char CHR ''-'' CHR '' '' skill_name)))))"
proof -
  let ?m = "output_path @ [skill_name, ''SKILL.md'']"
  let ?c = "manifest_text skill_name (title (replace_char CHR ''_'' CHR '' ''
           (replace_char CHR ''-'' CHR '' '' skill_name)))"
  from ret obtain fs3 fs4 fs5 fs6 where
    w1: "write_formatted ?m SKILL_MD_TEMPLATE
       [(''skill_name'', skill_name),
        (''skill_title'', title (replace_char CHR ''_'' CHR '' ''
           (replace_char CHR ''-'' CHR '' '' skill_name)))] fs3 = (None, fs4)" and
    w2: "write_formatted (output_path @ [skill_name, ''scripts'', ''example.py'']) EXAMPLE_SCRIPT
       [(''skill_name'', skill_name)] fs4 = (None, fs5)" and
    w3: "write_formatted (output_path @ [skill_name, ''references'', ''example.md''])
       EXAMPLE_REFERENCE [(''skill_name'', skill_name)] fs5 = (None, fs6)" and
    t: "touch (output_path @ [skill_name, ''assets'', ''.gitkeep'']) fs6 = (None, fs')"
    by (rule create_skill_directory_Returned)
  from w1 obtain content where
    c: "str_format SKILL_MD_TEMPLATE [(''skill_name'', skill_name),
        (''skill_title'', title (replace_char CHR ''_'' CHR '' ''
           (replace_char CHR ''-'' CHR '' '' skill_name)))] = Inr content"
    and wt: "write_text ?m content fs3 = (None, fs4)"
    by (auto simp: write_formatted_def split: sum.splits)
  from c have cc: "content = ?c"
    using rendered_SKILL_MD[of skill_name "title (replace_char CHR ''_'' CHR '' ''
           (replace_char CHR ''-'' CHR '' '' skill_name))"] by (simp add: rendered_def)
  from write_text_None[OF wt] have f4: "fs4 = fs3(?m \<mapsto> File content)"
    and d: "is_dir fs3 (butlast ?m)" by blast+
  have s4: "stat fs4 ?m = Inr (File ?c)"
    unfolding f4 cc using d by (intro stat_file_written) simp_all
  from write_formatted_None[OF w2] have s5: "stat fs5 ?m = Inr (File ?c)"
    using s4 by (auto simp: stat_upd_other)
  from write_formatted_None[OF w3] have s6: "stat fs6 ?m = Inr (File ?c)"
    using s5 by (auto simp: stat_upd_other)
  from touch_None[OF t] have "stat fs' ?m = Inr (File ?c)"
    using s6 by (auto simp: stat_upd_other)
  then show ?thesis by (simp add: MANIFEST_NAME_def)
qed

lemma only_allowed_chars_no_newline: "only_allowed_chars cs \<Longrightarrow> CHR 0x0A \<notin> set cs"
  by (auto simp: only_allowed_chars_def list_all_iff dest: name_char_not_newline)

lemma name_line_single:
  "only_allowed_chars cs \<Longrightarrow> split_lines (name_line cs) = [name_line cs]"
  by (rule split_lines_single) (auto simp: name_line_def dest: only_allowed_chars_no_newline)

lemma name_lines_cases:
  assumes "validate_skill_name n"
  obtains cs where "only_allowed_chars cs" and
    "split_lines (name_line n) = [name_line cs] \<or>
     split_lines (name_line n) = [name_line cs, []]"
proof -
  from assms consider "only_allowed_chars n"
    | cs where "only_allowed_chars cs" "n = cs @ [CHR 0x0A]"
    by (auto simp: validate_skill_name_iff)
  then show ?thesis
  proof cases
    case 1
    then show ?thesis using that[of n] by (simp add: name_line_single)
  next
    case (2 cs)
    have "split_lines (name_line cs @ CHR 0x0A # []) =
            split_lines (name_line cs) @ split_lines []"
      by (rule split_lines_append)
    moreover from 2 have "name_line n = name_line cs @ CHR 0x0A # []"
      by (simp add: name_line_def)
    ultimately have "split_lines (name_line n) = [name_line cs, []]"
      using 2 by (simp add: name_line_single)
    with 2(1) show ?thesis using that[of cs] by simp
  qed
qed

lemma name_lines_no_fence:
  "validate_skill_name n \<Longrightarrow> ''---'' \<notin> set (split_lines (name_line n))"
  by (erule name_lines_cases) (auto simp: name_line_def)

lemma name_lines_no_description:
  "validate_skill_name n \<Longrightarrow>
     filter (\<lambda>l. prefix ''description:'' l \<and> drop 12 l \<noteq> []) (split_lines (name_line n)) = []"
  by (erule name_lines_cases) (auto simp: name_line_def)

lemma manifest_text_lines:
  "split_lines (manifest_text n t) =
     ''---'' # split_lines (name_line n) @
     description_line # ''---'' # split_lines (manifest_body t)"
proof -
  have "split_lines (manifest_text n t) =
     split_lines ''---'' @ split_lines (name_line n) @
     split_lines description_line @ split_lines ''---'' @
     split_lines (manifest_body t)"
    unfolding manifest_text_def by (simp only: split_lines_append)
  moreover have "split_lines ''---'' = [''---'']" by simp
  moreover have "split_lines description_line =
     [description_line]"
    by (rule split_lines_single) (simp add: description_line_def DESCRIPTION_PLACEHOLDER_def)
  ultimately show ?thesis by simp
qed

lemma parse_manifest_text:
  assumes "validate_skill_name n"
  shows "parse_manifest (manifest_text n t) =
     Some (split_lines (name_line n) @ [description_line],
           manifest_body t)"
proof -
  have "''---'' \<notin> set (split_lines (name_line n) @ [description_line])"
    using name_lines_no_fence[OF assms] by (simp add: description_line_def)
  then have "until_fence ((split_lines (name_line n) @ [description_line]) @
       ''---'' # split_lines (manifest_body t)) =
     Some (split_lines (name_line n) @ [description_line],
           split_lines (manifest_body t))"
    by (rule until_fence_append)
  then show ?thesis
    by (simp add: parse_manifest_def manifest_text_lines join_split_lines)
qed

lemma description_value_scaffolded:
  assumes "validate_skill_name n"
  shows "description_value (split_lines (name_line n) @
           [description_line]) = Some ('' '' @ DESCRIPTION_PLACEHOLDER)"
  using name_lines_no_description[OF assms]
  by (simp add: description_value_def description_line_def DESCRIPTION_PLACEHOLDER_def)

lemma strip_placeholder: "strip ('' '' @ DESCRIPTION_PLACEHOLDER) = DESCRIPTION_PLACEHOLDER"
  by (simp add: strip_def is_space_def DESCRIPTION_PLACEHOLDER_def)

lemma placeholder_brackets:
  "CHR ''['' \<in> set DESCRIPTION_PLACEHOLDER \<and> CHR '']'' \<in> set DESCRIPTION_PLACEHOLDER"
  by (simp add: DESCRIPTION_PLACEHOLDER_def)

lemma strip_not_Nil:
  assumes "c \<in> set s" and "\<not> is_space c"
  shows "strip s \<noteq> []"
proof -
  from assms have a: "dropWhile is_space s \<noteq> []"
    by (auto simp: dropWhile_eq_Nil_conv)
  then have "\<not> is_space (hd (dropWhile is_space s))" by (rule hd_dropWhile)
  moreover from a have "hd (dropWhile is_space s) \<in> set (rev (dropWhile is_space s))" by simp
  ultimately have "dropWhile is_space (rev (dropWhile is_space s)) \<noteq> []"
    by (auto simp: dropWhile_eq_Nil_conv)
  then show ?thesis by (simp add: strip_def)
qed

lemma strip_manifest_body: "strip (manifest_body t) \<noteq> []"
  by (rule strip_not_Nil[of "CHR ''#''"]) (simp_all add: manifest_body_def is_space_def)

subsection \<open>The directories a returning run leaves\<close>

lemma is_dir_after_write:
  assumes "write_formatted p template kwargs fs = (None, fs')"
    and "\<not> prefix p q" and "is_dir fs q"
  shows "is_dir fs' q"
proof -
  from write_formatted_None[OF assms(1)] obtain content where
    "fs' = fs(p \<mapsto> File content)" by blast
  with assms(2,3) show ?thesis by (simp add: is_dir_upd_other)
qed

lemma is_dir_after_touch:
  assumes "touch p fs = (None, fs')"
    and "\<not> prefix p q" and "is_dir fs q"
  shows "is_dir fs' q"
proof -
  from touch_None[OF assms(1)] have "fs' = fs \<or> fs' = fs(p \<mapsto> File [])" by blast
  with assms(2,3) show ?thesis by (auto simp: is_dir_upd_other)
qed

lemma create_skill_directory_dirs:
  assumes ret: "create_skill_directory skill_name output_path fs = (Returned, fs')"
  shows "is_dir fs' (output_path @ [skill_name, ''scripts'']) \<and>
         is_dir fs' (output_path @ [skill_name, ''references'']) \<and>
         is_dir fs' (output_path @ [skill_name, ''assets''])"
proof -
  from ret obtain fs1 fs2 fs3 fs4 fs5 fs6 where
    m1: "mkdir_parents False (output_path @ [skill_name, ''scripts'']) fs = (None, fs1)" and
    m2: "mkdir_parents False (output_path @ [skill_name, ''references'']) fs1 = (None, fs2)" and
    m3: "mkdir_parents False (output_path @ [skill_name, ''assets'']) fs2 = (None, fs3)" and
    w1: "write_formatted (output_path @ [skill_name, ''SKILL.md'']) SKILL_MD_TEMPLATE
       [(''skill_name'', skill_name),
        (''skill_title'', title (replace_char CHR ''_'' CHR '' ''
           (replace_char CHR ''-'' CHR '' '' skill_name)))] fs3 = (None, fs4)" and
    w2: "write_formatted (output_path @ [skill_name, ''scripts'', ''example.py'']) EXAMPLE_SCRIPT
       [(''skill_name'', skill_name)] fs4 = (None, fs5)" and
    w3: "write_formatted (output_path @ [skill_name, ''references'', ''example.md''])
       EXAMPLE_REFERENCE [(''skill_name'', skill_name)] fs5 = (None, fs6)" and
    t: "touch (output_path @ [skill_name, ''assets'', ''.gitkeep'']) fs6 = (None, fs')"
    by (rule create_skill_directory_Returned)
  from mkdir_parents_None[OF m1]
  have s1: "is_dir fs1 (output_path @ [skill_name, ''scripts''])" by blast
  from mkdir_parents_None[OF m2]
  have f2: "fs2 = with_dirs fs1 (output_path @ [skill_name, ''references''])"
    and r2: "is_dir fs2 (output_path @ [skill_name, ''references''])" by blast+
  from mkdir_parents_None[OF m3]
  have f3: "fs3 = with_dirs fs2 (output_path @ [skill_name, ''assets''])"
    and a3: "is_dir fs3 (output_path @ [skill_name, ''assets''])" by blast+
  have s2: "is_dir fs2 (output_path @ [skill_name, ''scripts''])"
    unfolding f2 using s1 by (rule is_dir_with_dirs)
  have s3: "is_dir fs3 (output_path @ [skill_name, ''scripts''])"
    unfolding f3 using s2 by (rule is_dir_with_dirs)
  have r3: "is_dir fs3 (output_path @ [skill_name, ''references''])"
    unfolding f3 using r2 by (rule is_dir_with_dirs)
  have keep: "is_dir fs' (output_path @ [skill_name, x])"
    if "is_dir fs3 (output_path @ [skill_name, x])" and "x \<noteq> ''SKILL.md''" for x
  proof -
    have "\<not> prefix (output_path @ [skill_name, ''SKILL.md'']) (output_path @ [skill_name, x])"
      using that(2) by auto
    with w1 have "is_dir fs4 (output_path @ [skill_name, x])"
      using that(1) by (rule is_dir_after_write)
    then have "is_dir fs5 (output_path @ [skill_name, x])"
      using w2 by (intro is_dir_after_write[OF w2]) simp_all
    then have "is_dir fs6 (output_path @ [skill_name, x])"
      using w3 by (intro is_dir_after_write[OF w3]) simp_all
    then show ?thesis
      by (intro is_dir_after_touch[OF t]) simp_all
  qed
  have "is_dir fs' (output_path @ [skill_name, ''scripts''])" by (rule keep[OF s3]) simp
  moreover have "is_dir fs' (output_path @ [skill_name, ''references''])" by (rule keep[OF r3]) simp
  moreover have "is_dir fs' (output_path @ [skill_name, ''assets''])" by (rule keep[OF a3]) simp
  ultimately show ?thesis by blast
qed

section \<open>The claims about the scaffolder\<close>

text \<open>
  Claim C2: whenever the target directory \<open>output_path / skill_name\<close> already exists,
  \<open>create_skill_directory\<close> leaves through \<^verbatim>\<open>sys.exit(1)\<close> (a non-zero exit status) and
  the filesystem is the one it started from: nothing is created or modified.
\<close>

theorem create_skill_directory_exists:
  "path_exists fs (output_path @ [skill_name]) \<Longrightarrow>
     create_skill_directory skill_name output_path fs = (SysExit 1, fs)"
  by (simp add: create_skill_directory_def)

theorem create_skill_directory_exists_witness:
  "path_exists (Map.empty([''out''] \<mapsto> Dir, [''out'', ''s''] \<mapsto> Dir)) ([''out''] @ [''s'']) \<and>
   create_skill_directory ''s'' [''out''] (Map.empty([''out''] \<mapsto> Dir, [''out'', ''s''] \<mapsto> Dir)) =
     (SysExit 1, Map.empty([''out''] \<mapsto> Dir, [''out'', ''s''] \<mapsto> Dir))"
proof -
  have h: "path_exists (Map.empty([''out''] \<mapsto> Dir, [''out'', ''s''] \<mapsto> Dir)) ([''out''] @ [''s''])"
    by (simp add: path_exists_def stat_def)
  from create_skill_directory_exists[OF h] h show ?thesis by blast
qed

text \<open>
  Claim C9 as stated (every path the scaffolder creates lies strictly inside the new skill
  directory) fails: \<^verbatim>\<open>mkdir(parents=True)\<close> also creates the missing directories above
  it. Run in an empty filesystem with output path \<^verbatim>\<open>out\<close>, the scaffolder returns and has
  created \<^verbatim>\<open>out\<close>, which is not inside \<^verbatim>\<open>out/s\<close>.
\<close>

theorem create_skill_directory_creates_output_path:
  "fst (create_skill_directory ''s'' [''out''] Map.empty) = Returned \<and>
   (Map.empty :: filesystem) [''out''] = None \<and>
   snd (create_skill_directory ''s'' [''out''] Map.empty) [''out''] = Some Dir \<and>
   \<not> strict_prefix ([''out''] @ [''s'']) [''out'']"
  by (simp add: scaffold_eval)

text \<open>
  Claim C9, amended: when scaffolding returns, every path whose entry differs afterwards is
  either strictly inside the new skill directory, or it is the skill directory or one of
  the directories above it, had no entry before and is a directory now. So no entry that
  existed outside the skill directory is modified or deleted.
\<close>

theorem create_skill_directory_frame:
  assumes "create_skill_directory skill_name output_path fs = (Returned, fs')"
    and "fs' q \<noteq> fs q"
  shows "strict_prefix (output_path @ [skill_name]) q \<or>
         (prefix q (output_path @ [skill_name]) \<and> fs q = None \<and> fs' q = Some Dir)"
proof (cases "strict_prefix (output_path @ [skill_name]) q")
  case True
  then show ?thesis by simp
next
  case False
  let ?d = "output_path @ [skill_name]"
  from assms(1) obtain fs1 fs2 fs3 fs4 fs5 fs6 where
    m1: "mkdir_parents False (output_path @ [skill_name, ''scripts'']) fs = (None, fs1)" and
    m2: "mkdir_parents False (output_path @ [skill_name, ''references'']) fs1 = (None, fs2)" and
    m3: "mkdir_parents False (output_path @ [skill_name, ''assets'']) fs2 = (None, fs3)" and
    w1: "write_formatted (output_path @ [skill_name, ''SKILL.md'']) SKILL_MD_TEMPLATE
       [(''skill_name'', skill_name),
        (''skill_title'', title (replace_char CHR ''_'' CHR '' ''
           (replace_char CHR ''-'' CHR '' '' skill_name)))] fs3 = (None, fs4)" and
    w2: "write_formatted (output_path @ [skill_name, ''scripts'', ''example.py'']) EXAMPLE_SCRIPT
       [(''skill_name'', skill_name)] fs4 = (None, fs5)" and
    w3: "write_formatted (output_path @ [skill_name, ''references'', ''example.md''])
       EXAMPLE_REFERENCE [(''skill_name'', skill_name)] fs5 = (None, fs6)" and
    t: "touch (output_path @ [skill_name, ''assets'', ''.gitkeep'']) fs6 = (None, fs')"
    by (rule create_skill_directory_Returned)
  have inside: "strict_prefix ?d (output_path @ skill_name # r)" if "r \<noteq> []" for r
    using that by (simp add: strict_prefix_def)
  have nq: "q \<noteq> output_path @ skill_name # r" if "r \<noteq> []" for r
    using False inside[OF that] by blast
  have q6: "fs' q = fs6 q"
  proof -
    have "q \<noteq> output_path @ [skill_name, ''assets'', ''.gitkeep'']" by (rule nq) simp
    with touch_None[OF t] show ?thesis by (elim disjE conjE) simp_all
  qed
  have q5: "fs6 q = fs5 q"
  proof -
    have "q \<noteq> output_path @ [skill_name, ''references'', ''example.md'']" by (rule nq) simp
    with write_formatted_None[OF w3] show ?thesis by (elim exE conjE) simp
  qed
  have q4: "fs5 q = fs4 q"
  proof -
    have "q \<noteq> output_path @ [skill_name, ''scripts'', ''example.py'']" by (rule nq) simp
    with write_formatted_None[OF w2] show ?thesis by (elim exE conjE) simp
  qed
  have q3: "fs4 q = fs3 q"
  proof -
    have "q \<noteq> output_path @ [skill_name, ''SKILL.md'']" by (rule nq) simp
    with write_formatted_None[OF w1] show ?thesis by (elim exE conjE) simp
  qed
  from mkdir_parents_None[OF m1]
  have f1: "fs1 = with_dirs fs (output_path @ [skill_name, ''scripts''])"
    and d1: "is_dir fs1 (output_path @ [skill_name, ''scripts''])" by blast+
  from mkdir_parents_None[OF m2]
  have f2: "fs2 = with_dirs fs1 (output_path @ [skill_name, ''references''])" by blast
  from mkdir_parents_None[OF m3]
  have f3: "fs3 = with_dirs fs2 (output_path @ [skill_name, ''assets''])" by blast
  have pre: "prefix q (output_path @ [skill_name, x]) \<longleftrightarrow> prefix q ?d" for x
    using nq[of "[x]"] prefix_snoc[of q "output_path @ [skill_name]" x] by simp
  have q1: "fs1 q = (if prefix q ?d \<and> q \<noteq> [] \<and> fs q = None then Some Dir else fs q)"
    unfolding f1 by (simp add: with_dirs_def pre)
  have dd: "fs1 q = Some Dir" if "prefix q ?d" "q \<noteq> []"
    using is_dir_lookup[OF d1, of q] that pre[of "''scripts''"] by simp
  have q2: "fs2 q = fs1 q"
    unfolding f2 using dd by (auto simp: with_dirs_def pre)
  have q3': "fs3 q = fs2 q"
    unfolding f3 using dd q2 by (auto simp: with_dirs_def pre)
  have "fs' q = fs1 q"
    by (simp add: q6 q5 q4 q3 q3' q2)
  with assms(2) q1 show ?thesis
    by (auto split: if_splits)
qed

theorem create_skill_directory_frame_witness:
  "create_skill_directory ''s'' [''out''] Map.empty =
     (Returned, snd (create_skill_directory ''s'' [''out''] Map.empty)) \<and>
   snd (create_skill_directory ''s'' [''out''] Map.empty) [''out''] \<noteq> (Map.empty :: filesystem) [''out''] \<and>
   (strict_prefix ([''out''] @ [''s'']) [''out''] \<or>
    (prefix [''out''] ([''out''] @ [''s'']) \<and> (Map.empty :: filesystem) [''out''] = None \<and>
     snd (create_skill_directory ''s'' [''out''] Map.empty) [''out''] = Some Dir))"
proof -
  have e: "fst (create_skill_directory ''s'' [''out''] Map.empty) = Returned \<and>
     snd (create_skill_directory ''s'' [''out''] Map.empty) [''out''] = Some Dir"
    by (simp add: scaffold_eval)
  then have r: "create_skill_directory ''s'' [''out''] Map.empty =
     (Returned, snd (create_skill_directory ''s'' [''out''] Map.empty))"
    by (metis prod.collapse)
  have n: "snd (create_skill_directory ''s'' [''out''] Map.empty) [''out''] \<noteq>
     (Map.empty :: filesystem) [''out'']"
    using e by simp
  from create_skill_directory_frame[OF r n] r n show ?thesis by blast
qed

text \<open>
  Claim C10: scaffolding is deterministic in the skill name. Two runs with the same name that
  both return, each started in a filesystem tree (so that nothing lies below the target
  that did not exist), leave the same entry at every path relative to their skill
  directories: the same directories and files with the same contents.
\<close>

theorem create_skill_directory_deterministic:
  assumes "tree_shaped fs1" and "tree_shaped fs2"
    and r1: "create_skill_directory skill_name output_path1 fs1 = (Returned, fs1')"
    and r2: "create_skill_directory skill_name output_path2 fs2 = (Returned, fs2')"
  shows "fs1' (output_path1 @ [skill_name] @ r) = fs2' (output_path2 @ [skill_name] @ r)"
proof -
  from r1 have "\<not> path_exists fs1 (output_path1 @ [skill_name])"
    by (rule create_skill_directory_Returned)
  with assms(1) have u1: "unused_below fs1 (output_path1 @ [skill_name])"
    by (rule tree_shaped_unused_below)
  from r2 have "\<not> path_exists fs2 (output_path2 @ [skill_name])"
    by (rule create_skill_directory_Returned)
  with assms(2) have u2: "unused_below fs2 (output_path2 @ [skill_name])"
    by (rule tree_shaped_unused_below)
  show ?thesis
    using create_skill_directory_tree[OF r1 u1, of r] create_skill_directory_tree[OF r2 u2, of r]
    by simp
qed

theorem create_skill_directory_deterministic_witness:
  "tree_shaped Map.empty \<and> tree_shaped (Map.empty([''b''] \<mapsto> Dir)) \<and>
   create_skill_directory ''s'' [''a''] Map.empty =
     (Returned, snd (create_skill_directory ''s'' [''a''] Map.empty)) \<and>
   create_skill_directory ''s'' [''b''] (Map.empty([''b''] \<mapsto> Dir)) =
     (Returned, snd (create_skill_directory ''s'' [''b''] (Map.empty([''b''] \<mapsto> Dir)))) \<and>
   snd (create_skill_directory ''s'' [''a''] Map.empty) ([''a''] @ [''s''] @ [''SKILL.md'']) =
   snd (create_skill_directory ''s'' [''b''] (Map.empty([''b''] \<mapsto> Dir)))
     ([''b''] @ [''s''] @ [''SKILL.md''])"
proof -
  have t1: "tree_shaped Map.empty" by (simp add: tree_shaped_def)
  have t2: "tree_shaped (Map.empty([''b''] \<mapsto> Dir))"
    by (auto simp: tree_shaped_def is_dir_def split: if_splits)
  have "fst (create_skill_directory ''s'' [''a''] Map.empty) = Returned"
    by (simp add: scaffold_eval)
  then have r1: "create_skill_directory ''s'' [''a''] Map.empty =
     (Returned, snd (create_skill_directory ''s'' [''a''] Map.empty))"
    by (metis prod.collapse)
  have "fst (create_skill_directory ''s'' [''b''] (Map.empty([''b''] \<mapsto> Dir))) = Returned"
    by (simp add: scaffold_eval)
  then have r2: "create_skill_directory ''s'' [''b''] (Map.empty([''b''] \<mapsto> Dir)) =
     (Returned, snd (create_skill_directory ''s'' [''b''] (Map.empty([''b''] \<mapsto> Dir))))"
    by (metis prod.collapse)
  from create_skill_directory_deterministic[OF t1 t2 r1 r2, of "[''SKILL.md'']"] t1 t2 r1 r2
  show ?thesis by blast
qed

section \<open>The claims about the validator and the packager\<close>

text \<open>
  Claim C5: when there is no manifest file at the expected path, \<open>validate\<close> returns an
  invalid result whose violations are exactly the one for the missing manifest, whatever
  else the filesystem holds: no later rule contributes.
\<close>

theorem validate_manifest_missing:
  assumes "\<forall>content. stat fs (skill_dir @ [MANIFEST_NAME]) \<noteq> Inr (File content)"
  shows "validate fs skill_dir = \<lparr>isValid = False, violations = [ManifestMissing]\<rparr> \<and>
         length (violations (validate fs skill_dir)) = 1"
proof (cases "stat fs (skill_dir @ [MANIFEST_NAME])")
  case (Inl e)
  then show ?thesis by (simp add: validate_def)
next
  case (Inr n)
  with assms have "n = Dir" by (cases n) auto
  with Inr show ?thesis by (simp add: validate_def)
qed

theorem validate_manifest_missing_witness:
  "(\<forall>content. stat (Map.empty([''skill''] \<mapsto> Dir, [''skill'', ''README.md''] \<mapsto> File ''x''))
       ([''skill''] @ [MANIFEST_NAME]) \<noteq> Inr (File content)) \<and>
   validate (Map.empty([''skill''] \<mapsto> Dir, [''skill'', ''README.md''] \<mapsto> File ''x'')) [''skill''] =
     \<lparr>isValid = False, violations = [ManifestMissing]\<rparr> \<and>
   length (violations (validate
     (Map.empty([''skill''] \<mapsto> Dir, [''skill'', ''README.md''] \<mapsto> File ''x'')) [''skill''])) = 1"
proof -
  have h: "\<forall>content. stat (Map.empty([''skill''] \<mapsto> Dir, [''skill'', ''README.md''] \<mapsto> File ''x''))
       ([''skill''] @ [MANIFEST_NAME]) \<noteq> Inr (File content)"
    by (simp add: stat_def MANIFEST_NAME_def)
  from validate_manifest_missing[OF h] h show ?thesis by blast
qed

text \<open>
  Claim C6: for a manifest whose description is present, a trimmed description that holds
  both brackets yields the placeholder violation whatever its length, and a trimmed
  description shorter than 50 characters yields the length violation as well; the two are
  separate entries and can both be present.
\<close>

theorem validate_placeholder:
  assumes "stat fs (skill_dir @ [MANIFEST_NAME]) = Inr (File content)"
    and "parse_manifest content = Some (frontmatter, body)"
    and "description_value frontmatter = Some v"
    and "has_placeholder (strip v)"
  shows "DescriptionPlaceholder \<in> set (violations (validate fs skill_dir)) \<and>
         (length (strip v) < 50 \<longrightarrow>
            DescriptionTooShort (length (strip v)) 50 \<in> set (violations (validate fs skill_dir)))"
  using assms
  by (simp add: validate_def description_rules_def MIN_DESCRIPTION_LENGTH_def Let_def)

theorem validate_placeholder_witness:
  "stat (Map.empty([''demo''] \<mapsto> Dir, [''demo'', ''SKILL.md''] \<mapsto>
       File ''---\<newline>name: demo\<newline>description: [todo]\<newline>---\<newline>body''))
     ([''demo''] @ [MANIFEST_NAME]) =
     Inr (File ''---\<newline>name: demo\<newline>description: [todo]\<newline>---\<newline>body'') \<and>
   parse_manifest ''---\<newline>name: demo\<newline>description: [todo]\<newline>---\<newline>body'' =
     Some ([''name: demo'', ''description: [todo]''], ''body'') \<and>
   description_value [''name: demo'', ''description: [todo]''] = Some '' [todo]'' \<and>
   has_placeholder (strip '' [todo]'') \<and>
   length (strip '' [todo]'') < 50 \<and>
   DescriptionPlaceholder \<in> set (violations (validate
     (Map.empty([''demo''] \<mapsto> Dir, [''demo'', ''SKILL.md''] \<mapsto>
       File ''---\<newline>name: demo\<newline>description: [todo]\<newline>---\<newline>body'')) [''demo''])) \<and>
   DescriptionTooShort (length (strip '' [todo]'')) 50 \<in> set (violations (validate
     (Map.empty([''demo''] \<mapsto> Dir, [''demo'', ''SKILL.md''] \<mapsto>
       File ''---\<newline>name: demo\<newline>description: [todo]\<newline>---\<newline>body'')) [''demo'']))"
proof -
  have h1: "stat (Map.empty([''demo''] \<mapsto> Dir, [''demo'', ''SKILL.md''] \<mapsto>
       File ''---\<newline>name: demo\<newline>description: [todo]\<newline>---\<newline>body''))
     ([''demo''] @ [MANIFEST_NAME]) =
     Inr (File ''---\<newline>name: demo\<newline>description: [todo]\<newline>---\<newline>body'')"
    by (simp add: stat_def MANIFEST_NAME_def)
  have h2: "parse_manifest ''---\<newline>name: demo\<newline>description: [todo]\<newline>---\<newline>body'' =
     Some ([''name: demo'', ''description: [todo]''], ''body'')"
    by (simp add: parse_manifest_def)
  have h3: "description_value [''name: demo'', ''description: [todo]''] = Some '' [todo]''"
    by (simp add: description_value_def)
  have h4: "has_placeholder (strip '' [todo]'')"
    by (simp add: has_placeholder_def strip_def is_space_def)
  have h5: "length (strip '' [todo]'') < 50"
    by (simp add: strip_def is_space_def)
  from validate_placeholder[OF h1 h2 h3 h4] h1 h2 h3 h4 h5 show ?thesis by blast
qed

text \<open>
  Claim C7: for a manifest with a valid structure, a body-length violation is present
  exactly when the trimmed body is shorter than 100 characters, and it reports the actual
  and the required length; so a trimmed body of 100 characters passes and one of 99 does
  not.
\<close>

theorem validate_body_length:
  assumes "stat fs (skill_dir @ [MANIFEST_NAME]) = Inr (File content)"
    and "parse_manifest content = Some (frontmatter, body)"
  shows "((\<exists>n m. BodyTooShort n m \<in> set (violations (validate fs skill_dir))) \<longleftrightarrow>
            length (strip body) < 100) \<and>
         (length (strip body) < 100 \<longrightarrow>
            BodyTooShort (length (strip body)) 100 \<in> set (violations (validate fs skill_dir)))"
  using assms
  by (auto simp: validate_def description_rules_def body_rule_def forbidden_rule_def
      MIN_BODY_LENGTH_def Let_def split: option.splits if_splits)


theorem validate_body_length_witness:
  "stat (Map.empty([''demo''] \<mapsto> Dir, [''demo'', ''SKILL.md''] \<mapsto> File manifest_99))
     ([''demo''] @ [MANIFEST_NAME]) = Inr (File manifest_99) \<and>
   parse_manifest manifest_99 = Some ([''name: demo'', ''description: A skill that shows how packaging works in this repository, for tests''], ''012345678901234567890123456789012345678901234567890123456789012345678901234567890123456789012345678'') \<and>
   length (strip ''012345678901234567890123456789012345678901234567890123456789012345678901234567890123456789012345678'') = 99 \<and>
   BodyTooShort 99 100 \<in> set (violations (validate
     (Map.empty([''demo''] \<mapsto> Dir, [''demo'', ''SKILL.md''] \<mapsto> File manifest_99)) [''demo''])) \<and>
   stat (Map.empty([''demo''] \<mapsto> Dir, [''demo'', ''SKILL.md''] \<mapsto> File manifest_100))
     ([''demo''] @ [MANIFEST_NAME]) = Inr (File manifest_100) \<and>
   parse_manifest manifest_100 = Some ([''name: demo'', ''description: A skill that shows how packaging works in this repository, for tests''], ''0123456789012345678901234567890123456789012345678901234567890123456789012345678901234567890123456789'') \<and>
   length (strip ''0123456789012345678901234567890123456789012345678901234567890123456789012345678901234567890123456789'') = 100 \<and>
   \<not> (\<exists>n m. BodyTooShort n m \<in> set (violations (validate
     (Map.empty([''demo''] \<mapsto> Dir, [''demo'', ''SKILL.md''] \<mapsto> File manifest_100)) [''demo''])))"
proof -
  have a1: "stat (Map.empty([''demo''] \<mapsto> Dir, [''demo'', ''SKILL.md''] \<mapsto> File manifest_99))
     ([''demo''] @ [MANIFEST_NAME]) = Inr (File manifest_99)"
    by (simp add: stat_def MANIFEST_NAME_def)
  have a2: "parse_manifest manifest_99 = Some ([''name: demo'', ''description: A skill that shows how packaging works in this repository, for tests''], ''012345678901234567890123456789012345678901234567890123456789012345678901234567890123456789012345678'')"
    by (simp add: parse_manifest_def manifest_99_def)
  have a3: "length (strip ''012345678901234567890123456789012345678901234567890123456789012345678901234567890123456789012345678'') = 99"
    by (simp add: strip_def is_space_def)
  have b1: "stat (Map.empty([''demo''] \<mapsto> Dir, [''demo'', ''SKILL.md''] \<mapsto> File manifest_100))
     ([''demo''] @ [MANIFEST_NAME]) = Inr (File manifest_100)"
    by (simp add: stat_def MANIFEST_NAME_def)
  have b2: "parse_manifest manifest_100 = Some ([''name: demo'', ''description: A skill that shows how packaging works in this repository, for tests''], ''0123456789012345678901234567890123456789012345678901234567890123456789012345678901234567890123456789'')"
    by (simp add: parse_manifest_def manifest_100_def)
  have b3: "length (strip ''0123456789012345678901234567890123456789012345678901234567890123456789012345678901234567890123456789'') = 100"
    by (simp add: strip_def is_space_def)
  from validate_body_length[OF a1 a2] a3
  have c1: "BodyTooShort 99 100 \<in> set (violations (validate
     (Map.empty([''demo''] \<mapsto> Dir, [''demo'', ''SKILL.md''] \<mapsto> File manifest_99)) [''demo'']))"
    by simp
  from validate_body_length[OF b1 b2] b3
  have c2: "\<not> (\<exists>n m. BodyTooShort n m \<in> set (violations (validate
     (Map.empty([''demo''] \<mapsto> Dir, [''demo'', ''SKILL.md''] \<mapsto> File manifest_100)) [''demo''])))"
    by simp
  show ?thesis
    by (intro conjI) (fact a1 a2 a3 c1 b1 b2 b3 c2)+
qed

text \<open>
  Claim C8: packaging a skill directory that fails validation fails with the violations
  and returns the filesystem it was given: no file is produced in the output directory
  and a file already at the target archive path keeps its content.
\<close>

theorem package_invalid:
  "\<not> isValid (validate fs skill_dir) \<Longrightarrow>
     package archive_bytes skill_dir output_dir fs =
       (Inl (ValidationFailed (violations (validate fs skill_dir))), fs)"
  by (simp add: package_def Let_def)

theorem package_invalid_witness:
  "\<not> isValid (validate (Map.empty([''out''] \<mapsto> Dir, [''out'', ''demo.skill''] \<mapsto> File ''old''))
        [''demo'']) \<and>
   package (\<lambda>name tree. []) [''demo''] [''out'']
       (Map.empty([''out''] \<mapsto> Dir, [''out'', ''demo.skill''] \<mapsto> File ''old'')) =
     (Inl (ValidationFailed (violations (validate
        (Map.empty([''out''] \<mapsto> Dir, [''out'', ''demo.skill''] \<mapsto> File ''old'')) [''demo'']))),
      Map.empty([''out''] \<mapsto> Dir, [''out'', ''demo.skill''] \<mapsto> File ''old''))"
proof -
  have h: "\<not> isValid (validate
      (Map.empty([''out''] \<mapsto> Dir, [''out'', ''demo.skill''] \<mapsto> File ''old'')) [''demo''])"
    by (simp add: validate_def stat_def MANIFEST_NAME_def)
  from package_invalid[OF h] h show ?thesis by blast
qed

section \<open>The claims about the scaffolded manifest\<close>

text \<open>
  Claim C4: for every accepted skill name, the manifest of a freshly scaffolded skill has
  the template's placeholder text as its description, a text that holds both \<^verbatim>\<open>[\<close> and
  \<^verbatim>\<open>]\<close>; so validating the fresh skill directory reports the placeholder violation and the
  directory is not valid.
\<close>

theorem scaffolded_description_placeholder:
  assumes "validate_skill_name skill_name"
    and "create_skill_directory skill_name output_path fs = (Returned, fs')"
  shows "\<exists>content frontmatter body.
     stat fs' (output_path @ [skill_name] @ [MANIFEST_NAME]) = Inr (File content) \<and>
     content = manifest_text skill_name (title (replace_char CHR ''_'' CHR '' ''
                 (replace_char CHR ''-'' CHR '' '' skill_name))) \<and>
     parse_manifest content = Some (frontmatter, body) \<and>
     description_value frontmatter = Some ('' '' @ DESCRIPTION_PLACEHOLDER) \<and>
     strip ('' '' @ DESCRIPTION_PLACEHOLDER) = DESCRIPTION_PLACEHOLDER \<and>
     has_placeholder DESCRIPTION_PLACEHOLDER \<and>
     DescriptionPlaceholder \<in> set (violations (validate fs' (output_path @ [skill_name]))) \<and>
     isValid (validate fs' (output_path @ [skill_name])) = False"
proof -
  let ?t = "title (replace_char CHR ''_'' CHR '' '' (replace_char CHR ''-'' CHR '' '' skill_name))"
  let ?fm = "split_lines (name_line skill_name) @ [description_line]"
  have s: "stat fs' (output_path @ [skill_name] @ [MANIFEST_NAME]) =
      Inr (File (manifest_text skill_name ?t))"
    using assms(2) by (rule create_skill_directory_manifest)
  have p: "parse_manifest (manifest_text skill_name ?t) = Some (?fm, manifest_body ?t)"
    using assms(1) by (rule parse_manifest_text)
  have d: "description_value ?fm = Some ('' '' @ DESCRIPTION_PLACEHOLDER)"
    using assms(1) by (rule description_value_scaffolded)
  have h: "has_placeholder DESCRIPTION_PLACEHOLDER"
    using placeholder_brackets by (simp add: has_placeholder_def)
  have r: "DescriptionPlaceholder \<in> set (description_rules ?fm)"
    using d h strip_placeholder by (simp add: description_rules_def)
  have v: "DescriptionPlaceholder \<in> set (violations (validate fs' (output_path @ [skill_name])))"
    using s p r by (simp add: validate_def Let_def)
  have i: "isValid (validate fs' (output_path @ [skill_name])) = False"
    using s p r by (auto simp: validate_def Let_def)
  from s p d h v i strip_placeholder show ?thesis by blast
qed

theorem scaffolded_description_placeholder_witness:
  "validate_skill_name ''my-skill'' \<and>
   create_skill_directory ''my-skill'' [''out''] Map.empty =
     (Returned, snd (create_skill_directory ''my-skill'' [''out''] Map.empty)) \<and>
   (\<exists>content frontmatter body.
     stat (snd (create_skill_directory ''my-skill'' [''out''] Map.empty))
       ([''out''] @ [''my-skill''] @ [MANIFEST_NAME]) = Inr (File content) \<and>
     content = manifest_text ''my-skill'' (title (replace_char CHR ''_'' CHR '' ''
                 (replace_char CHR ''-'' CHR '' '' ''my-skill''))) \<and>
     parse_manifest content = Some (frontmatter, body) \<and>
     description_value frontmatter = Some ('' '' @ DESCRIPTION_PLACEHOLDER) \<and>
     strip ('' '' @ DESCRIPTION_PLACEHOLDER) = DESCRIPTION_PLACEHOLDER \<and>
     has_placeholder DESCRIPTION_PLACEHOLDER \<and>
     DescriptionPlaceholder \<in> set (violations (validate
       (snd (create_skill_directory ''my-skill'' [''out''] Map.empty)) ([''out''] @ [''my-skill'']))) \<and>
     isValid (validate (snd (create_skill_directory ''my-skill'' [''out''] Map.empty))
       ([''out''] @ [''my-skill''])) = False)"
proof -
  have a: "validate_skill_name ''my-skill''"
    by (simp add: validate_skill_name_def name_char_def re_dollar_def)
  have "fst (create_skill_directory ''my-skill'' [''out''] Map.empty) = Returned"
    by (simp add: scaffold_eval)
  then have r: "create_skill_directory ''my-skill'' [''out''] Map.empty =
     (Returned, snd (create_skill_directory ''my-skill'' [''out''] Map.empty))"
    by (metis prod.collapse)
  from scaffolded_description_placeholder[OF a r] a r show ?thesis by blast
qed

text \<open>
  Claim C3 as stated (for every accepted name, when the target directory does not exist the
  scaffolder creates the skill directory) fails where a component of the output path is a
  regular file: the target does not exist, \<^verbatim>\<open>mkdir\<close> raises NotADirectoryError, the
  exception escapes and nothing is created.
\<close>

theorem create_skill_directory_output_path_is_file:
  "validate_skill_name ''s'' \<and>
   \<not> path_exists (Map.empty([''out''] \<mapsto> File ''x'')) ([''out''] @ [''s'']) \<and>
   create_skill_directory ''s'' [''out''] (Map.empty([''out''] \<mapsto> File ''x'')) =
     (Raised (OSError NotADirectoryError), Map.empty([''out''] \<mapsto> File ''x''))"
  by (simp add: scaffold_eval validate_skill_name_def name_char_def re_dollar_def)

text \<open>
  Claim C3, amended: for every accepted skill name, whenever the scaffolder returns, the
  target directory did not exist before, and afterwards the skill directory and its
  \<^verbatim>\<open>scripts\<close>, \<^verbatim>\<open>references\<close> and \<^verbatim>\<open>assets\<close> subdirectories are directories and the
  manifest \<^verbatim>\<open>SKILL.md\<close> is a file. The manifest is the fence \<^verbatim>\<open>---\<close> at the very start, a
  newline, \<^verbatim>\<open>name: \<close> and the skill name, a newline, the description line, the closing
  fence line and a body that is not blank. For a name made only of letters, digits,
  hyphens and underscores these are the manifest's first four lines: the fence, the name
  line whose value is the skill name, the description line and the closing fence. That the
  run returns is a hypothesis: a filesystem error ends it with an exception.
\<close>

theorem create_skill_directory_scaffolds:
  assumes "validate_skill_name skill_name"
    and "create_skill_directory skill_name output_path fs = (Returned, fs')"
  shows "\<exists>content body.
     \<not> path_exists fs (output_path @ [skill_name]) \<and>
     is_dir fs' (output_path @ [skill_name]) \<and>
     is_dir fs' (output_path @ [skill_name, ''scripts'']) \<and>
     is_dir fs' (output_path @ [skill_name, ''references'']) \<and>
     is_dir fs' (output_path @ [skill_name, ''assets'']) \<and>
     stat fs' (output_path @ [skill_name, ''SKILL.md'']) = Inr (File content) \<and>
     content = ''---'' @ CHR 0x0A # (''name: '' @ skill_name) @ CHR 0x0A #
               description_line @ CHR 0x0A # ''---'' @ CHR 0x0A # body \<and>
     strip body \<noteq> [] \<and>
     (only_allowed_chars skill_name \<longrightarrow>
        split_lines content =
          ''---'' # (''name: '' @ skill_name) # description_line # ''---'' # split_lines body)"
proof -
  let ?t = "title (replace_char CHR ''_'' CHR '' '' (replace_char CHR ''-'' CHR '' '' skill_name))"
  from assms(2) have ne: "\<not> path_exists fs (output_path @ [skill_name])"
    by (rule create_skill_directory_Returned)
  from create_skill_directory_dirs[OF assms(2)]
  have d1: "is_dir fs' (output_path @ [skill_name, ''scripts''])"
    and d2: "is_dir fs' (output_path @ [skill_name, ''references''])"
    and d3: "is_dir fs' (output_path @ [skill_name, ''assets''])" by blast+
  have d0: "is_dir fs' (output_path @ [skill_name])"
    using d1 by (rule is_dir_prefix) simp
  have m: "stat fs' (output_path @ [skill_name, ''SKILL.md'']) =
      Inr (File (manifest_text skill_name ?t))"
    using create_skill_directory_manifest[OF assms(2)] by (simp add: MANIFEST_NAME_def)
  have c: "manifest_text skill_name ?t =
      ''---'' @ CHR 0x0A # (''name: '' @ skill_name) @ CHR 0x0A #
      description_line @ CHR 0x0A # ''---'' @ CHR 0x0A # manifest_body ?t"
    by (simp add: manifest_text_def name_line_def)
  have l: "split_lines (manifest_text skill_name ?t) =
      ''---'' # (''name: '' @ skill_name) # description_line # ''---'' #
        split_lines (manifest_body ?t)" if "only_allowed_chars skill_name"
    using name_line_single[OF that] by (simp add: manifest_text_lines) (simp add: name_line_def)
  show ?thesis
    by (intro exI[of _ "manifest_text skill_name ?t"] exI[of _ "manifest_body ?t"] conjI impI)
       (rule ne d0 d1 d2 d3 m c strip_manifest_body l | assumption)+
qed

theorem create_skill_directory_scaffolds_witness:
  "validate_skill_name ''my-skill'' \<and>
   create_skill_directory ''my-skill'' [''out''] (Map.empty([''out''] \<mapsto> Dir)) =
     (Returned, snd (create_skill_directory ''my-skill'' [''out''] (Map.empty([''out''] \<mapsto> Dir)))) \<and>
   only_allowed_chars ''my-skill'' \<and>
   (\<exists>content body.
     \<not> path_exists (Map.empty([''out''] \<mapsto> Dir)) ([''out''] @ [''my-skill'']) \<and>
     is_dir (snd (create_skill_directory ''my-skill'' [''out''] (Map.empty([''out''] \<mapsto> Dir))))
       ([''out''] @ [''my-skill'']) \<and>
     is_dir (snd (create_skill_directory ''my-skill'' [''out''] (Map.empty([''out''] \<mapsto> Dir))))
       ([''out''] @ [''my-skill'', ''scripts'']) \<and>
     is_dir (snd (create_skill_directory ''my-skill'' [''out''] (Map.empty([''out''] \<mapsto> Dir))))
       ([''out''] @ [''my-skill'', ''references'']) \<and>
     is_dir (snd (create_skill_directory ''my-skill'' [''out''] (Map.empty([''out''] \<mapsto> Dir))))
       ([''out''] @ [''my-skill'', ''assets'']) \<and>
     stat (snd (create_skill_directory ''my-skill'' [''out''] (Map.empty([''out''] \<mapsto> Dir))))
       ([''out''] @ [''my-skill'', ''SKILL.md'']) = Inr (File content) \<and>
     content = ''---'' @ CHR 0x0A # (''name: '' @ ''my-skill'') @ CHR 0x0A #
               description_line @ CHR 0x0A # ''---'' @ CHR 0x0A # body \<and>
     strip body \<noteq> [] \<and>
     split_lines content =
       ''---'' # (''name: '' @ ''my-skill'') # description_line # ''---'' # split_lines body)"
proof -
  have a: "validate_skill_name ''my-skill''"
    by (simp add: validate_skill_name_def name_char_def re_dollar_def)
  have "fst (create_skill_directory ''my-skill'' [''out''] (Map.empty([''out''] \<mapsto> Dir))) = Returned"
    by (simp add: scaffold_eval)
  then have r: "create_skill_directory ''my-skill'' [''out''] (Map.empty([''out''] \<mapsto> Dir)) =
     (Returned, snd (create_skill_directory ''my-skill'' [''out''] (Map.empty([''out''] \<mapsto> Dir))))"
    by (metis prod.collapse)
  have e: "only_allowed_chars ''my-skill''"
    by (simp add: only_allowed_chars_def name_char_def)
  from create_skill_directory_scaffolds[OF a r] a r e show ?thesis
    by blast
qed

end
